theory Spec2Isabelle
  imports Main "HOL-Library.Word"
begin

unbundle bit_operations_syntax

section \<open>AMD PMU virtualization (xen/arch/x86/hvm/svm/vpmu.c)\<close>

text \<open>
  A shallow embedding of the AMD backend of Xen's virtual PMU. Register addresses are
  32-bit words (\<open>unsigned int msr\<close>, \<open>u32\<close>), register contents 64-bit words
  (\<open>uint64_t\<close>). The file's static variables form the record \<open>pmu_layout\<close>; the
  virtual CPU the handlers run on, the hardware register file and the PMU ownership
  variable form the record \<open>machine\<close>, which every operation takes and returns.
\<close>

type_synonym u32 = "32 word"
type_synonym u64 = "64 word"

subsection \<open>Constants of headers that vpmu.c includes\<close>

text \<open>
  Modelled from the spec: the register addresses of asm/msr-index.h, which vpmu.c
  includes and which is not among the sources. The spec calls them the legacy bank and
  the extended bank; the values are the architectural addresses of the AMD K7 and
  family 15h performance registers (K7: four event selects followed by four counters;
  family 15h: six select/counter pairs, selects at even and counters at odd addresses,
  as \<open>get_pmu_reg_type\<close> below relies on).
\<close>

definition MSR_K7_EVNTSEL0 :: u32 where "MSR_K7_EVNTSEL0 = 0xC0010000"
definition MSR_K7_EVNTSEL1 :: u32 where "MSR_K7_EVNTSEL1 = 0xC0010001"
definition MSR_K7_EVNTSEL2 :: u32 where "MSR_K7_EVNTSEL2 = 0xC0010002"
definition MSR_K7_EVNTSEL3 :: u32 where "MSR_K7_EVNTSEL3 = 0xC0010003"
definition MSR_K7_PERFCTR0 :: u32 where "MSR_K7_PERFCTR0 = 0xC0010004"
definition MSR_K7_PERFCTR1 :: u32 where "MSR_K7_PERFCTR1 = 0xC0010005"
definition MSR_K7_PERFCTR2 :: u32 where "MSR_K7_PERFCTR2 = 0xC0010006"
definition MSR_K7_PERFCTR3 :: u32 where "MSR_K7_PERFCTR3 = 0xC0010007"

definition MSR_AMD_FAM15H_EVNTSEL0 :: u32 where "MSR_AMD_FAM15H_EVNTSEL0 = 0xC0010200"
definition MSR_AMD_FAM15H_PERFCTR0 :: u32 where "MSR_AMD_FAM15H_PERFCTR0 = 0xC0010201"
definition MSR_AMD_FAM15H_EVNTSEL1 :: u32 where "MSR_AMD_FAM15H_EVNTSEL1 = 0xC0010202"
definition MSR_AMD_FAM15H_PERFCTR1 :: u32 where "MSR_AMD_FAM15H_PERFCTR1 = 0xC0010203"
definition MSR_AMD_FAM15H_EVNTSEL2 :: u32 where "MSR_AMD_FAM15H_EVNTSEL2 = 0xC0010204"
definition MSR_AMD_FAM15H_PERFCTR2 :: u32 where "MSR_AMD_FAM15H_PERFCTR2 = 0xC0010205"
definition MSR_AMD_FAM15H_EVNTSEL3 :: u32 where "MSR_AMD_FAM15H_EVNTSEL3 = 0xC0010206"
definition MSR_AMD_FAM15H_PERFCTR3 :: u32 where "MSR_AMD_FAM15H_PERFCTR3 = 0xC0010207"
definition MSR_AMD_FAM15H_EVNTSEL4 :: u32 where "MSR_AMD_FAM15H_EVNTSEL4 = 0xC0010208"
definition MSR_AMD_FAM15H_PERFCTR4 :: u32 where "MSR_AMD_FAM15H_PERFCTR4 = 0xC0010209"
definition MSR_AMD_FAM15H_EVNTSEL5 :: u32 where "MSR_AMD_FAM15H_EVNTSEL5 = 0xC001020A"
definition MSR_AMD_FAM15H_PERFCTR5 :: u32 where "MSR_AMD_FAM15H_PERFCTR5 = 0xC001020B"

text \<open>
  Modelled from the spec: the register classes of asm/hvm/vpmu.h (the spec's
  \<open>Counter\<close> and \<open>Control\<close>), the error numbers of xen/errno.h and the \<open>off\<close> value
  of the global mode switch of public/pmu.h. None of these headers is among the
  sources; only that the values differ (and that the error numbers are positive)
  matters below.
\<close>

definition MSR_TYPE_COUNTER :: int where "MSR_TYPE_COUNTER = 0"
definition MSR_TYPE_CTRL :: int where "MSR_TYPE_CTRL = 1"

definition EINVAL :: int where "EINVAL = 22"
definition ENOMEM :: int where "ENOMEM = 12"
definition ENOSPC :: int where "ENOSPC = 28"

definition XENPMU_MODE_OFF :: u64 where "XENPMU_MODE_OFF = 0"

subsection \<open>Macros of vpmu.c\<close>

definition MSR_F10H_EVNTSEL_GO_SHIFT :: nat where "MSR_F10H_EVNTSEL_GO_SHIFT = 40"
definition MSR_F10H_EVNTSEL_EN_SHIFT :: nat where "MSR_F10H_EVNTSEL_EN_SHIFT = 22"

definition is_guest_mode :: "u64 \<Rightarrow> bool" where
  "is_guest_mode msr \<longleftrightarrow> msr AND push_bit MSR_F10H_EVNTSEL_GO_SHIFT 1 \<noteq> 0"

definition is_pmu_enabled :: "u64 \<Rightarrow> bool" where
  "is_pmu_enabled msr \<longleftrightarrow> msr AND push_bit MSR_F10H_EVNTSEL_EN_SHIFT 1 \<noteq> 0"

definition set_guest_mode :: "u64 \<Rightarrow> u64" where
  "set_guest_mode msr = msr OR push_bit MSR_F10H_EVNTSEL_GO_SHIFT 1"

definition F10H_NUM_COUNTERS :: nat where "F10H_NUM_COUNTERS = 4"
definition F15H_NUM_COUNTERS :: nat where "F15H_NUM_COUNTERS = 6"

definition AMD_F10H_COUNTERS :: "u32 list" where
  "AMD_F10H_COUNTERS =
     [MSR_K7_PERFCTR0, MSR_K7_PERFCTR1, MSR_K7_PERFCTR2, MSR_K7_PERFCTR3]"

definition AMD_F10H_CTRLS :: "u32 list" where
  "AMD_F10H_CTRLS =
     [MSR_K7_EVNTSEL0, MSR_K7_EVNTSEL1, MSR_K7_EVNTSEL2, MSR_K7_EVNTSEL3]"

definition AMD_F15H_COUNTERS :: "u32 list" where
  "AMD_F15H_COUNTERS =
     [MSR_AMD_FAM15H_PERFCTR0, MSR_AMD_FAM15H_PERFCTR1, MSR_AMD_FAM15H_PERFCTR2,
      MSR_AMD_FAM15H_PERFCTR3, MSR_AMD_FAM15H_PERFCTR4, MSR_AMD_FAM15H_PERFCTR5]"

definition AMD_F15H_CTRLS :: "u32 list" where
  "AMD_F15H_CTRLS =
     [MSR_AMD_FAM15H_EVNTSEL0, MSR_AMD_FAM15H_EVNTSEL1, MSR_AMD_FAM15H_EVNTSEL2,
      MSR_AMD_FAM15H_EVNTSEL3, MSR_AMD_FAM15H_EVNTSEL4, MSR_AMD_FAM15H_EVNTSEL5]"

subsection \<open>The static variables of vpmu.c: the register layout\<close>

text \<open>
  \<open>num_counters\<close>, \<open>counters\<close>, \<open>ctrls\<close> and \<open>k7_counters_mirrored\<close>. The two
  pointers are either NULL or point to one of the constant tables above; NULL is the
  empty list, so the C test \<open>!counters\<close> is \<open>counters = []\<close>.
\<close>

record pmu_layout =
  num_counters :: nat
  counters :: "u32 list"
  ctrls :: "u32 list"
  k7_counters_mirrored :: bool

text \<open>The statics before \<open>amd_vpmu_init\<close> runs: zero-initialised.\<close>

definition layout_unset :: pmu_layout where
  "layout_unset =
     \<lparr>num_counters = 0, counters = [], ctrls = [], k7_counters_mirrored = False\<rparr>"

definition get_pmu_reg_type :: "u32 \<Rightarrow> int" where
  "get_pmu_reg_type addr =
     (if MSR_K7_EVNTSEL0 \<le> addr \<and> addr \<le> MSR_K7_EVNTSEL3 then MSR_TYPE_CTRL
      else if MSR_K7_PERFCTR0 \<le> addr \<and> addr \<le> MSR_K7_PERFCTR3 then MSR_TYPE_COUNTER
      else if MSR_AMD_FAM15H_EVNTSEL0 \<le> addr \<and> addr \<le> MSR_AMD_FAM15H_PERFCTR5 then
        (if addr AND 1 \<noteq> 0 then MSR_TYPE_COUNTER else MSR_TYPE_CTRL)
      else - 1)"

definition get_fam15h_addr :: "u32 \<Rightarrow> u32" where
  "get_fam15h_addr addr =
     (if addr = MSR_K7_PERFCTR0 then MSR_AMD_FAM15H_PERFCTR0
      else if addr = MSR_K7_PERFCTR1 then MSR_AMD_FAM15H_PERFCTR1
      else if addr = MSR_K7_PERFCTR2 then MSR_AMD_FAM15H_PERFCTR2
      else if addr = MSR_K7_PERFCTR3 then MSR_AMD_FAM15H_PERFCTR3
      else if addr = MSR_K7_EVNTSEL0 then MSR_AMD_FAM15H_EVNTSEL0
      else if addr = MSR_K7_EVNTSEL1 then MSR_AMD_FAM15H_EVNTSEL1
      else if addr = MSR_K7_EVNTSEL2 then MSR_AMD_FAM15H_EVNTSEL2
      else if addr = MSR_K7_EVNTSEL3 then MSR_AMD_FAM15H_EVNTSEL3
      else addr)"

text \<open>
  \<open>amd_vpmu_init\<close>: the processor family selects the layout; a register bank that
  does not fit into the shared page resets it. The result is the return value and the
  statics afterwards. \<open>sizeof(struct xen_pmu_data)\<close> and \<open>PAGE_SIZE\<close> come from
  headers that are not among the sources and are parameters; \<open>sizeof(uint64_t)\<close> is 8.
  The sizes are compile-time constants far below the range of \<open>size_t\<close>, so the sum
  is computed on natural numbers.
\<close>

definition amd_vpmu_init :: "nat \<Rightarrow> nat \<Rightarrow> nat \<Rightarrow> pmu_layout \<Rightarrow> int \<times> pmu_layout" where
  "amd_vpmu_init x86 sizeof_xen_pmu_data PAGE_SIZE st =
     (if x86 \<noteq> 0x15 \<and> x86 \<noteq> 0x10 \<and> x86 \<noteq> 0x12 \<and> x86 \<noteq> 0x14 \<and> x86 \<noteq> 0x16
      then (- EINVAL, st)
      else
        let st1 =
          (if x86 = 0x15
           then \<lparr>num_counters = F15H_NUM_COUNTERS, counters = AMD_F15H_COUNTERS,
                 ctrls = AMD_F15H_CTRLS, k7_counters_mirrored = True\<rparr>
           else \<lparr>num_counters = F10H_NUM_COUNTERS, counters = AMD_F10H_COUNTERS,
                 ctrls = AMD_F10H_CTRLS, k7_counters_mirrored = False\<rparr>)
        in if sizeof_xen_pmu_data + 2 * 8 * num_counters st1 > PAGE_SIZE
           then (- ENOSPC, st1\<lparr>counters := [], ctrls := [], num_counters := 0\<rparr>)
           else (0, st1))"

subsection \<open>The virtual CPU, the hardware and the ownership variable\<close>

text \<open>
  Modelled from the spec: the state flags of asm/hvm/vpmu.h and their accessors
  \<open>vpmu_set\<close>, \<open>vpmu_reset\<close>, \<open>vpmu_is_set\<close> and \<open>vpmu_clear\<close>, which are not among
  the sources. The spec describes a set of independent flags with accessors that set,
  clear and test one flag and clear all of them.
\<close>

datatype vpmu_flag =
    VPMU_CONTEXT_ALLOCATED
  | VPMU_CONTEXT_LOADED
  | VPMU_RUNNING
  | VPMU_CONTEXT_SAVE
  | VPMU_FROZEN
  | VPMU_PASSIVE_DOMAIN_ALLOCATED

text \<open>
  \<open>struct xen_pmu_amd_ctxt\<close>: the two offsets that \<open>svm_vpmu_initialise\<close> records and
  the two shadow arrays that \<open>vpmu_reg_pointer\<close> finds through them, \<open>counter_regs\<close>
  and \<open>ctrl_regs\<close> in every function of vpmu.c.
\<close>

record xen_pmu_amd_ctxt =
  ctxt_counters :: u32
  ctxt_ctrls :: u32
  counter_regs :: "u64 list"
  ctrl_regs :: "u64 list"

text \<open>
  Modelled from the spec: the intercept modes of \<open>svm_intercept_msr\<close> (asm/hvm/svm),
  which the spec calls pass-through (\<open>MSR_INTERCEPT_NONE\<close>), trapped on writes only
  (\<open>MSR_INTERCEPT_WRITE\<close>) and full read-write trap (\<open>MSR_INTERCEPT_RW\<close>).
\<close>

datatype msr_intercept =
  MSR_INTERCEPT_NONE | MSR_INTERCEPT_READ | MSR_INTERCEPT_WRITE | MSR_INTERCEPT_RW

datatype vpmu_ops = NO_VPMU_OPS | AMD_VPMU_OPS

text \<open>
  The virtual CPU as vpmu.c sees it: \<open>has_hvm_container_vcpu(v)\<close>, its MSR intercept
  configuration, and the fields of \<open>struct vpmu_struct\<close>. \<open>vpmu_context\<close> (the field \<open>context\<close>) is \<open>None\<close> when
  the pointer refers to no storage (never allocated, or freed). \<open>priv_context\<close> is used
  by vpmu.c as a flag only: NULL (\<open>False\<close>) or \<open>(void *)-1\<close> (\<open>True\<close>).
\<close>

record vcpu =
  has_hvm_container_vcpu :: bool
  msr_intercepts :: "u32 \<Rightarrow> msr_intercept"
  flags :: "vpmu_flag set"
  vpmu_context :: "xen_pmu_amd_ctxt option"
  priv_context :: bool
  arch_vpmu_ops :: vpmu_ops

definition vpmu_set :: "vpmu_flag \<Rightarrow> vcpu \<Rightarrow> vcpu" where
  "vpmu_set x v = v\<lparr>flags := insert x (flags v)\<rparr>"

definition vpmu_reset :: "vpmu_flag \<Rightarrow> vcpu \<Rightarrow> vcpu" where
  "vpmu_reset x v = v\<lparr>flags := flags v - {x}\<rparr>"

definition vpmu_is_set :: "vcpu \<Rightarrow> vpmu_flag \<Rightarrow> bool" where
  "vpmu_is_set v x \<longleftrightarrow> x \<in> flags v"

definition vpmu_clear :: "vcpu \<Rightarrow> vcpu" where
  "vpmu_clear v = v\<lparr>flags := {}\<rparr>"

definition msr_bitmap_on :: "vcpu \<Rightarrow> vcpu" where
  "msr_bitmap_on v = v\<lparr>priv_context := True\<rparr>"

definition msr_bitmap_off :: "vcpu \<Rightarrow> vcpu" where
  "msr_bitmap_off v = v\<lparr>priv_context := False\<rparr>"

definition is_msr_bitmap_on :: "vcpu \<Rightarrow> bool" where
  "is_msr_bitmap_on v \<longleftrightarrow> priv_context v"

text \<open>
  Modelled from the spec: \<open>svm_intercept_msr\<close>, which is not among the sources. It
  requests one intercept mode for one register address of one virtual CPU.
\<close>

definition svm_intercept_msr :: "u32 \<Rightarrow> msr_intercept \<Rightarrow> vcpu \<Rightarrow> vcpu" where
  "svm_intercept_msr msr m v = v\<lparr>msr_intercepts := (msr_intercepts v)(msr := m)\<rparr>"

text \<open>
  Modelled from the spec: the hardware register file behind \<open>wrmsrl\<close> and \<open>rdmsrl\<close>.
  It is the list of writes so far, the latest first, over the contents the registers
  had before; a read returns the latest value written to the address. Between two
  operations the hardware may change (counters count): the theorems take the register
  file at the start of an operation as arbitrary.
\<close>

record msr_file =
  msr_before :: "u32 \<Rightarrow> u64"
  msr_writes :: "(u32 \<times> u64) list"

definition wrmsrl :: "u32 \<Rightarrow> u64 \<Rightarrow> msr_file \<Rightarrow> msr_file" where
  "wrmsrl msr val h = h\<lparr>msr_writes := (msr, val) # msr_writes h\<rparr>"

definition rdmsrl :: "msr_file \<Rightarrow> u32 \<Rightarrow> u64" where
  "rdmsrl h msr = (case map_of (msr_writes h) msr of Some val \<Rightarrow> val | None \<Rightarrow> msr_before h msr)"

text \<open>
  Modelled from the spec: the ownership arbiter (\<open>acquire_pmu_ownership\<close> and
  \<open>release_pmu_ownship\<close> of xen/xenoprof.h, not among the sources). Acquiring succeeds
  and claims the token if no other category holds it, and fails without side effects
  otherwise; releasing frees the token.
\<close>

datatype pmu_owner_t = PMU_OWNER_NONE | PMU_OWNER_XENOPROF | PMU_OWNER_HVM

definition acquire_pmu_ownership :: "pmu_owner_t \<Rightarrow> pmu_owner_t \<Rightarrow> bool \<times> pmu_owner_t" where
  "acquire_pmu_ownership pmu_ownship owner =
     (if owner = PMU_OWNER_NONE \<or> owner = pmu_ownship then (True, pmu_ownship)
      else (False, owner))"

definition release_pmu_ownship :: "pmu_owner_t \<Rightarrow> pmu_owner_t \<Rightarrow> pmu_owner_t" where
  "release_pmu_ownship pmu_ownship owner = PMU_OWNER_NONE"

text \<open>
  What one operation of vpmu.c works on: the virtual CPU it is called for
  (\<open>current\<close> in the register handlers), the hardware registers and the owner of
  the physical PMU.
\<close>

record machine =
  current :: vcpu
  hw :: msr_file
  pmu_owner :: pmu_owner_t

text \<open>
  What stops an operation: a failed \<open>ASSERT\<close>, or a dereference of a context pointer
  that refers to no storage.
\<close>

datatype fault = ASSERT_FAILED | BAD_CONTEXT

subsection \<open>The MSR intercept controller\<close>

text \<open>The loops over \<open>i = 0 .. num_counters - 1\<close> are folds over the index range.\<close>

definition amd_vpmu_set_msr_bitmap :: "pmu_layout \<Rightarrow> vcpu \<Rightarrow> vcpu" where
  "amd_vpmu_set_msr_bitmap lay v =
     msr_bitmap_on
       (fold (\<lambda>i v. svm_intercept_msr (ctrls lay ! i) MSR_INTERCEPT_WRITE
                       (svm_intercept_msr (counters lay ! i) MSR_INTERCEPT_NONE v))
          [0..<num_counters lay] v)"

definition amd_vpmu_unset_msr_bitmap :: "pmu_layout \<Rightarrow> vcpu \<Rightarrow> vcpu" where
  "amd_vpmu_unset_msr_bitmap lay v =
     msr_bitmap_off
       (fold (\<lambda>i v. svm_intercept_msr (ctrls lay ! i) MSR_INTERCEPT_RW
                       (svm_intercept_msr (counters lay ! i) MSR_INTERCEPT_RW v))
          [0..<num_counters lay] v)"

definition amd_vpmu_do_interrupt :: int where
  "amd_vpmu_do_interrupt = 1"

subsection \<open>Context load and save\<close>

text \<open>
  \<open>context_load\<close>, \<open>context_save\<close> and \<open>context_update\<close> dereference the context;
  they are given the storage it points to, and their callers fault when there is none.
\<close>

definition context_load :: "pmu_layout \<Rightarrow> xen_pmu_amd_ctxt \<Rightarrow> msr_file \<Rightarrow> msr_file" where
  "context_load lay ctxt h =
     fold (\<lambda>i h. wrmsrl (ctrls lay ! i) (ctrl_regs ctxt ! i)
                     (wrmsrl (counters lay ! i) (counter_regs ctxt ! i) h))
       [0..<num_counters lay] h"

definition amd_vpmu_load :: "pmu_layout \<Rightarrow> machine \<Rightarrow> fault + machine" where
  "amd_vpmu_load lay s =
     (case vpmu_context (current s) of
        None \<Rightarrow> Inl BAD_CONTEXT
      | Some ctxt \<Rightarrow>
          let v = vpmu_reset VPMU_FROZEN (current s) in
          if vpmu_is_set v VPMU_CONTEXT_LOADED
          then Inr (s\<lparr>current := v,
                       hw := fold (\<lambda>i h. wrmsrl (ctrls lay ! i) (ctrl_regs ctxt ! i) h)
                               [0..<num_counters lay] (hw s)\<rparr>)
          else Inr (s\<lparr>current := vpmu_set VPMU_CONTEXT_LOADED v,
                       hw := context_load lay ctxt (hw s)\<rparr>))"

definition context_save :: "pmu_layout \<Rightarrow> msr_file \<Rightarrow> xen_pmu_amd_ctxt \<Rightarrow> xen_pmu_amd_ctxt" where
  "context_save lay h ctxt =
     fold (\<lambda>i c. c\<lparr>counter_regs := (counter_regs c)[i := rdmsrl h (counters lay ! i)]\<rparr>)
       [0..<num_counters lay] ctxt"

definition amd_vpmu_save :: "pmu_layout \<Rightarrow> machine \<Rightarrow> fault + int \<times> machine" where
  "amd_vpmu_save lay s =
     (let v = current s in
      if \<not> vpmu_is_set v VPMU_CONTEXT_SAVE
      then Inr (0, s\<lparr>current := vpmu_set VPMU_FROZEN v,
                      hw := fold (\<lambda>i h. wrmsrl (ctrls lay ! i) 0 h)
                              [0..<num_counters lay] (hw s)\<rparr>)
      else if \<not> vpmu_is_set v VPMU_CONTEXT_LOADED
      then Inr (0, s)
      else
        (case vpmu_context v of
           None \<Rightarrow> Inl BAD_CONTEXT
         | Some ctxt \<Rightarrow>
             let v1 = v\<lparr>vpmu_context := Some (context_save lay (hw s) ctxt)\<rparr>;
                 v2 = (if \<not> vpmu_is_set v1 VPMU_RUNNING \<and> has_hvm_container_vcpu v1
                          \<and> is_msr_bitmap_on v1
                       then amd_vpmu_unset_msr_bitmap lay v1 else v1)
             in Inr (1, s\<lparr>current := v2\<rparr>)))"

text \<open>
  The loop of \<open>context_update\<close> returns at the first index whose control or counter
  address is \<open>msr\<close>; it runs over the indices still to visit.
\<close>

fun context_update_loop ::
  "pmu_layout \<Rightarrow> u32 \<Rightarrow> u64 \<Rightarrow> nat list \<Rightarrow> xen_pmu_amd_ctxt \<Rightarrow> xen_pmu_amd_ctxt" where
  "context_update_loop lay msr msr_content [] ctxt = ctxt"
| "context_update_loop lay msr msr_content (i # is) ctxt =
     (if msr = ctrls lay ! i
      then ctxt\<lparr>ctrl_regs := (ctrl_regs ctxt)[i := msr_content]\<rparr>
      else if msr = counters lay ! i
      then ctxt\<lparr>counter_regs := (counter_regs ctxt)[i := msr_content]\<rparr>
      else context_update_loop lay msr msr_content is ctxt)"

definition context_update ::
  "pmu_layout \<Rightarrow> u32 \<Rightarrow> u64 \<Rightarrow> xen_pmu_amd_ctxt \<Rightarrow> xen_pmu_amd_ctxt" where
  "context_update lay msr msr_content ctxt =
     (let msr1 = (if k7_counters_mirrored lay \<and> MSR_K7_EVNTSEL0 \<le> msr \<and> msr \<le> MSR_K7_PERFCTR3
                  then get_fam15h_addr msr else msr)
      in context_update_loop lay msr1 msr_content [0..<num_counters lay] ctxt)"

subsection \<open>The register access emulator\<close>

text \<open>
  \<open>amd_vpmu_do_wrmsr\<close> is a sequence of five blocks, each of which is a definition
  of its own here. First, the guest-only bit: the value that the rest of the function
  works with.
\<close>

definition wrmsr_guest_only :: "vcpu \<Rightarrow> u32 \<Rightarrow> u64 \<Rightarrow> u64" where
  "wrmsr_guest_only v msr msr_content =
     (if has_hvm_container_vcpu v \<and> get_pmu_reg_type msr = MSR_TYPE_CTRL
         \<and> \<not> is_guest_mode msr_content
      then set_guest_mode msr_content else msr_content)"

text \<open>
  Second, the first counter is enabled. \<open>Inl\<close> is the early \<open>return 1\<close> when the
  ownership is denied, \<open>Inr\<close> the machine with which the function goes on.
\<close>

definition wrmsr_first_enabled ::
  "pmu_layout \<Rightarrow> u32 \<Rightarrow> u64 \<Rightarrow> machine \<Rightarrow> machine + machine" where
  "wrmsr_first_enabled lay msr msr_content s =
     (if get_pmu_reg_type msr = MSR_TYPE_CTRL \<and> is_pmu_enabled msr_content
         \<and> \<not> vpmu_is_set (current s) VPMU_RUNNING
      then
        if \<not> fst (acquire_pmu_ownership PMU_OWNER_HVM (pmu_owner s))
        then Inl (s\<lparr>pmu_owner := snd (acquire_pmu_ownership PMU_OWNER_HVM (pmu_owner s))\<rparr>)
        else
          let v1 = vpmu_set VPMU_RUNNING (current s);
              v2 = (if has_hvm_container_vcpu v1 \<and> is_msr_bitmap_on v1
                    then amd_vpmu_set_msr_bitmap lay v1 else v1)
          in Inr (s\<lparr>current := v2,
                    pmu_owner := snd (acquire_pmu_ownership PMU_OWNER_HVM (pmu_owner s))\<rparr>)
      else Inr s)"

text \<open>Third, the guest stops the counter.\<close>

definition wrmsr_first_stopped :: "pmu_layout \<Rightarrow> u32 \<Rightarrow> u64 \<Rightarrow> machine \<Rightarrow> machine" where
  "wrmsr_first_stopped lay msr msr_content s =
     (if get_pmu_reg_type msr = MSR_TYPE_CTRL \<and> \<not> is_pmu_enabled msr_content
         \<and> vpmu_is_set (current s) VPMU_RUNNING
      then
        let v1 = vpmu_reset VPMU_RUNNING (current s);
            v2 = (if has_hvm_container_vcpu v1 \<and> is_msr_bitmap_on v1
                  then amd_vpmu_unset_msr_bitmap lay v1 else v1)
        in s\<lparr>current := v2,
              pmu_owner := release_pmu_ownship PMU_OWNER_HVM (pmu_owner s)\<rparr>
      else s)"

text \<open>Fourth, the context is loaded if it is not loaded or frozen.\<close>

definition wrmsr_load :: "pmu_layout \<Rightarrow> machine \<Rightarrow> fault + machine" where
  "wrmsr_load lay s =
     (if \<not> vpmu_is_set (current s) VPMU_CONTEXT_LOADED \<or> vpmu_is_set (current s) VPMU_FROZEN
      then
        (case vpmu_context (current s) of
           None \<Rightarrow> Inl BAD_CONTEXT
         | Some ctxt \<Rightarrow>
             Inr (s\<lparr>hw := context_load lay ctxt (hw s),
                     current := vpmu_reset VPMU_FROZEN
                                  (vpmu_set VPMU_CONTEXT_LOADED (current s))\<rparr>))
      else Inr s)"

text \<open>
  Fifth, the shadow update and the write to the hardware register \<open>msr\<close>, the address
  as it was passed in: \<open>context_update\<close> redirects its own copy of it only.
\<close>

definition wrmsr_update :: "pmu_layout \<Rightarrow> u32 \<Rightarrow> u64 \<Rightarrow> machine \<Rightarrow> fault + machine" where
  "wrmsr_update lay msr msr_content s =
     (case vpmu_context (current s) of
        None \<Rightarrow> Inl BAD_CONTEXT
      | Some ctxt \<Rightarrow>
          Inr (s\<lparr>current := (current s)
                    \<lparr>vpmu_context := Some (context_update lay msr msr_content ctxt)\<rparr>,
                  hw := wrmsrl msr msr_content (hw s)\<rparr>))"

definition amd_vpmu_do_wrmsr ::
  "pmu_layout \<Rightarrow> u32 \<Rightarrow> u64 \<Rightarrow> u64 \<Rightarrow> machine \<Rightarrow> fault + int \<times> machine" where
  "amd_vpmu_do_wrmsr lay msr msr_content0 supported s =
     (if supported \<noteq> 0 then Inl ASSERT_FAILED
      else
        let msr_content = wrmsr_guest_only (current s) msr msr_content0 in
        case wrmsr_first_enabled lay msr msr_content s of
          Inl s' \<Rightarrow> Inr (1, s')
        | Inr s1 \<Rightarrow>
            (case wrmsr_load lay (wrmsr_first_stopped lay msr msr_content s1) of
               Inl f \<Rightarrow> Inl f
             | Inr s3 \<Rightarrow>
                 (case wrmsr_update lay msr msr_content s3 of
                    Inl f \<Rightarrow> Inl f
                  | Inr s4 \<Rightarrow> Inr (1, s4))))"

text \<open>
  \<open>amd_vpmu_do_rdmsr\<close>: the return value, the value stored through \<open>msr_content\<close>,
  and the machine afterwards.
\<close>

definition amd_vpmu_do_rdmsr ::
  "pmu_layout \<Rightarrow> u32 \<Rightarrow> machine \<Rightarrow> fault + int \<times> u64 \<times> machine" where
  "amd_vpmu_do_rdmsr lay msr s =
     (let v = current s in
      if \<not> vpmu_is_set v VPMU_CONTEXT_LOADED \<or> vpmu_is_set v VPMU_FROZEN
      then
        (case vpmu_context v of
           None \<Rightarrow> Inl BAD_CONTEXT
         | Some ctxt \<Rightarrow>
             let s1 = s\<lparr>current := vpmu_reset VPMU_FROZEN (vpmu_set VPMU_CONTEXT_LOADED v),
                        hw := context_load lay ctxt (hw s)\<rparr>
             in Inr (1, rdmsrl (hw s1) msr, s1))
      else Inr (1, rdmsrl (hw s) msr, s))"

subsection \<open>Creation and destruction of the context\<close>

text \<open>
  \<open>amd_vpmu_destroy\<close>: \<open>xfree\<close> releases the storage, after which the context
  pointer refers to none.
\<close>

definition amd_vpmu_destroy :: "pmu_layout \<Rightarrow> machine \<Rightarrow> machine" where
  "amd_vpmu_destroy lay s =
     (let v = current s;
          v1 = (if has_hvm_container_vcpu v \<and> is_msr_bitmap_on v
                then amd_vpmu_unset_msr_bitmap lay v else v);
          v2 = v1\<lparr>vpmu_context := None\<rparr>;
          owner = (if vpmu_is_set v2 VPMU_RUNNING
                   then release_pmu_ownship PMU_OWNER_HVM (pmu_owner s) else pmu_owner s)
      in s\<lparr>current := vpmu_clear v2, pmu_owner := owner\<rparr>)"

text \<open>
  Modelled from the spec: \<open>sizeof(struct xen_pmu_amd_ctxt)\<close>, whose declaration
  (public/pmu.h) is not among the sources. The spec says only that the storage offsets
  of the two shadow arrays are recorded; the size taken here is that of the two 32-bit
  offset fields that precede the register array. No statement below depends on it.
\<close>

definition sizeof_xen_pmu_amd_ctxt :: u32 where
  "sizeof_xen_pmu_amd_ctxt = 8"

text \<open>
  \<open>svm_vpmu_initialise\<close>: \<open>vpmu_mode\<close> is the global mode switch; \<open>alloc_ok\<close> says
  whether \<open>xzalloc_bytes\<close> returns storage, which is then zero-filled.
\<close>

definition svm_vpmu_initialise :: "u64 \<Rightarrow> pmu_layout \<Rightarrow> bool \<Rightarrow> vcpu \<Rightarrow> int \<times> vcpu" where
  "svm_vpmu_initialise vpmu_mode lay alloc_ok v =
     (if vpmu_mode = XENPMU_MODE_OFF then (0, v)
      else if counters lay = [] then (- EINVAL, v)
      else if \<not> alloc_ok then (- ENOMEM, v)
      else
        let ctxt = \<lparr>ctxt_counters = sizeof_xen_pmu_amd_ctxt,
                    ctxt_ctrls = sizeof_xen_pmu_amd_ctxt + 8 * of_nat (num_counters lay),
                    counter_regs = replicate (num_counters lay) 0,
                    ctrl_regs = replicate (num_counters lay) 0\<rparr>
        in (0, vpmu_set VPMU_CONTEXT_ALLOCATED
                 (v\<lparr>vpmu_context := Some ctxt, priv_context := False,
                     arch_vpmu_ops := AMD_VPMU_OPS\<rparr>)))"

subsection \<open>The two layouts and concrete machines\<close>

text \<open>The statics after a successful \<open>amd_vpmu_init\<close>, for the two kinds of family.\<close>

definition layout_f10h :: pmu_layout where
  "layout_f10h =
     \<lparr>num_counters = F10H_NUM_COUNTERS, counters = AMD_F10H_COUNTERS,
      ctrls = AMD_F10H_CTRLS, k7_counters_mirrored = False\<rparr>"

definition layout_f15h :: pmu_layout where
  "layout_f15h =
     \<lparr>num_counters = F15H_NUM_COUNTERS, counters = AMD_F15H_COUNTERS,
      ctrls = AMD_F15H_CTRLS, k7_counters_mirrored = True\<rparr>"

text \<open>
  The shadow arrays have one entry per register of the bank, as
  \<open>svm_vpmu_initialise\<close> allocates them.
\<close>

definition ctxt_fits :: "pmu_layout \<Rightarrow> xen_pmu_amd_ctxt \<Rightarrow> bool" where
  "ctxt_fits lay ctxt \<longleftrightarrow>
     length (counter_regs ctxt) = num_counters lay \<and> length (ctrl_regs ctxt) = num_counters lay"

text \<open>
  Concrete machines for the examples: a virtual CPU before initialisation (every
  register trapped on reads and writes), a register file reading zero everywhere,
  and the machine right after \<open>svm_vpmu_initialise\<close> succeeded.
\<close>

definition blank_vcpu :: "bool \<Rightarrow> vcpu" where
  "blank_vcpu hvm =
     \<lparr>has_hvm_container_vcpu = hvm, msr_intercepts = (\<lambda>_. MSR_INTERCEPT_RW), flags = {},
      vpmu_context = None, priv_context = False, arch_vpmu_ops = NO_VPMU_OPS\<rparr>"

definition zero_msrs :: msr_file where
  "zero_msrs = \<lparr>msr_before = (\<lambda>_. 0), msr_writes = []\<rparr>"

definition fresh_machine :: "pmu_layout \<Rightarrow> bool \<Rightarrow> pmu_owner_t \<Rightarrow> machine" where
  "fresh_machine lay hvm owner =
     \<lparr>current = snd (svm_vpmu_initialise 1 lay True (blank_vcpu hvm)),
      hw = zero_msrs, pmu_owner = owner\<rparr>"

text \<open>The value with only the enable bit set.\<close>

definition EVNTSEL_EN :: u64 where
  "EVNTSEL_EN = push_bit MSR_F10H_EVNTSEL_EN_SHIFT 1"

text \<open>
  The statics after \<open>amd_vpmu_init\<close> on a family 15h processor whose shared page is
  too small for the bank (here the header alone fills the page).
\<close>

definition tiny_page_layout :: pmu_layout where
  "tiny_page_layout = snd (amd_vpmu_init 0x15 4096 4096 layout_unset)"

text \<open>
  Machines on which a forced save was requested (\<open>CONTEXT_SAVE\<close> set), with the
  context loaded or not and the fast-path intercept recorded as active or not.
\<close>

definition forced_save_machine :: "bool \<Rightarrow> bool \<Rightarrow> machine" where
  "forced_save_machine loaded bitmap =
     (let m = fresh_machine layout_f10h True PMU_OWNER_NONE;
          v = vpmu_set VPMU_CONTEXT_SAVE (current m);
          v1 = (if loaded then vpmu_set VPMU_CONTEXT_LOADED v else v);
          v2 = (if bitmap then msr_bitmap_on v1 else v1)
      in m\<lparr>current := v2\<rparr>)"

text \<open>The machine after a successful initialisation and a first load of its context.\<close>

definition loaded_machine :: "pmu_layout \<Rightarrow> bool \<Rightarrow> pmu_owner_t \<Rightarrow> machine" where
  "loaded_machine lay hvm owner =
     (let m = fresh_machine lay hvm owner
      in m\<lparr>current := vpmu_set VPMU_CONTEXT_LOADED (current m)\<rparr>)"

subsection \<open>Several virtual CPUs on one ownership token\<close>

text \<open>
  The handlers of vpmu.c run for every virtual CPU, each on its own
  \<open>struct vpmu_struct\<close>, and all of them on the one ownership variable. A system is
  the virtual CPUs by number, the hardware registers and the owner. A handler that runs
  for virtual CPU \<open>i\<close> sees the machine \<open>vcpu_view i\<close> and leaves its result with
  \<open>vcpu_put i\<close>. One register file stands for the hardware: it may change between any
  two steps, so nothing depends on which processor a virtual CPU runs on.
\<close>

datatype actor = Vcpu nat | Environment

record system =
  vcpus :: "nat \<Rightarrow> vcpu"
  sys_hw :: msr_file
  sys_owner :: pmu_owner_t

definition vcpu_view :: "nat \<Rightarrow> system \<Rightarrow> machine" where
  "vcpu_view i t = \<lparr>current = vcpus t i, hw = sys_hw t, pmu_owner = sys_owner t\<rparr>"

definition vcpu_put :: "nat \<Rightarrow> machine \<Rightarrow> system \<Rightarrow> system" where
  "vcpu_put i m t =
     \<lparr>vcpus = (vcpus t)(i := current m), sys_hw = hw m, sys_owner = pmu_owner m\<rparr>"

text \<open>
  One step of the system, and who takes it: an operation of vpmu.c for virtual CPU
  \<open>i\<close> with any arguments, the generic front-end setting or clearing a flag other than
  \<open>RUNNING\<close> of virtual CPU \<open>i\<close> (as it does with \<open>CONTEXT_SAVE\<close> and
  \<open>CONTEXT_LOADED\<close>), or the surroundings: the hardware registers change, the other
  category of PMU user tries to acquire the token, or releases it when it holds it.
\<close>

inductive sys_step :: "pmu_layout \<Rightarrow> actor \<Rightarrow> system \<Rightarrow> system \<Rightarrow> bool"
  for lay :: pmu_layout where
  initialise: "svm_vpmu_initialise vpmu_mode lay alloc_ok (vcpus t i) = (rc, v') \<Longrightarrow>
     sys_step lay (Vcpu i) t (t\<lparr>vcpus := (vcpus t)(i := v')\<rparr>)"
| do_wrmsr: "amd_vpmu_do_wrmsr lay msr msr_content 0 (vcpu_view i t) = Inr (rc, m') \<Longrightarrow>
     sys_step lay (Vcpu i) t (vcpu_put i m' t)"
| do_rdmsr: "amd_vpmu_do_rdmsr lay msr (vcpu_view i t) = Inr (rc, val, m') \<Longrightarrow>
     sys_step lay (Vcpu i) t (vcpu_put i m' t)"
| load: "amd_vpmu_load lay (vcpu_view i t) = Inr m' \<Longrightarrow>
     sys_step lay (Vcpu i) t (vcpu_put i m' t)"
| save: "amd_vpmu_save lay (vcpu_view i t) = Inr (rc, m') \<Longrightarrow>
     sys_step lay (Vcpu i) t (vcpu_put i m' t)"
| destroy: "sys_step lay (Vcpu i) t (vcpu_put i (amd_vpmu_destroy lay (vcpu_view i t)) t)"
| frontend_set: "x \<noteq> VPMU_RUNNING \<Longrightarrow>
     sys_step lay (Vcpu i) t (t\<lparr>vcpus := (vcpus t)(i := vpmu_set x (vcpus t i))\<rparr>)"
| frontend_reset: "x \<noteq> VPMU_RUNNING \<Longrightarrow>
     sys_step lay (Vcpu i) t (t\<lparr>vcpus := (vcpus t)(i := vpmu_reset x (vcpus t i))\<rparr>)"
| hardware: "sys_step lay Environment t (t\<lparr>sys_hw := h\<rparr>)"
| other_acquire: "sys_step lay Environment t
     (t\<lparr>sys_owner := snd (acquire_pmu_ownership PMU_OWNER_XENOPROF (sys_owner t))\<rparr>)"
| other_release: "sys_owner t = PMU_OWNER_XENOPROF \<Longrightarrow>
     sys_step lay Environment t
       (t\<lparr>sys_owner := release_pmu_ownship PMU_OWNER_XENOPROF (sys_owner t)\<rparr>)"

text \<open>
  A step of another virtual CPU than \<open>i\<close> that takes the token away from the HVM
  category: its disabling write or its destruction while it is \<open>RUNNING\<close>.
\<close>

definition foreign_release :: "nat \<Rightarrow> actor \<Rightarrow> system \<Rightarrow> system \<Rightarrow> bool" where
  "foreign_release i a t t' \<longleftrightarrow>
     a \<noteq> Vcpu i \<and> a \<noteq> Environment
     \<and> sys_owner t = PMU_OWNER_HVM \<and> sys_owner t' \<noteq> PMU_OWNER_HVM"

text \<open>
  The states the system reaches from virtual CPUs whose PMU structures are zeroed.
  With \<open>q = None\<close> every step counts; with \<open>q = Some i\<close> only the runs in which no
  other virtual CPU than \<open>i\<close> releases the token.
\<close>

definition all_zeroed :: "system \<Rightarrow> bool" where
  "all_zeroed t \<longleftrightarrow>
     (\<forall>i. flags (vcpus t i) = {} \<and> vpmu_context (vcpus t i) = None
          \<and> \<not> priv_context (vcpus t i))"

inductive sys_reachable :: "pmu_layout \<Rightarrow> nat option \<Rightarrow> system \<Rightarrow> bool"
  for lay :: pmu_layout and q :: "nat option" where
  start: "all_zeroed t \<Longrightarrow> sys_reachable lay q t"
| step: "sys_reachable lay q t \<Longrightarrow> sys_step lay a t t' \<Longrightarrow>
     (\<forall>i. q = Some i \<longrightarrow> \<not> foreign_release i a t t') \<Longrightarrow> sys_reachable lay q t'"







section \<open>Auxiliary facts\<close>

lemmas msr_defs =
  MSR_K7_EVNTSEL0_def MSR_K7_EVNTSEL1_def MSR_K7_EVNTSEL2_def MSR_K7_EVNTSEL3_def
  MSR_K7_PERFCTR0_def MSR_K7_PERFCTR1_def MSR_K7_PERFCTR2_def MSR_K7_PERFCTR3_def
  MSR_AMD_FAM15H_EVNTSEL0_def MSR_AMD_FAM15H_EVNTSEL1_def MSR_AMD_FAM15H_EVNTSEL2_def
  MSR_AMD_FAM15H_EVNTSEL3_def MSR_AMD_FAM15H_EVNTSEL4_def MSR_AMD_FAM15H_EVNTSEL5_def
  MSR_AMD_FAM15H_PERFCTR0_def MSR_AMD_FAM15H_PERFCTR1_def MSR_AMD_FAM15H_PERFCTR2_def
  MSR_AMD_FAM15H_PERFCTR3_def MSR_AMD_FAM15H_PERFCTR4_def MSR_AMD_FAM15H_PERFCTR5_def

lemmas layout_defs =
  layout_f10h_def layout_f15h_def F10H_NUM_COUNTERS_def F15H_NUM_COUNTERS_def
  AMD_F10H_COUNTERS_def AMD_F10H_CTRLS_def AMD_F15H_COUNTERS_def AMD_F15H_CTRLS_def

lemmas flag_defs = vpmu_set_def vpmu_reset_def vpmu_is_set_def vpmu_clear_def

lemmas fresh_defs =
  fresh_machine_def blank_vcpu_def zero_msrs_def svm_vpmu_initialise_def
  XENPMU_MODE_OFF_def sizeof_xen_pmu_amd_ctxt_def

lemma is_pmu_enabled_set_guest_mode [simp]:
  "is_pmu_enabled (set_guest_mode x) = is_pmu_enabled x"
  by (simp add: is_pmu_enabled_def set_guest_mode_def MSR_F10H_EVNTSEL_EN_SHIFT_def
      MSR_F10H_EVNTSEL_GO_SHIFT_def bit.conj_disj_distrib2)


lemma set_guest_mode_idem: "is_guest_mode x \<Longrightarrow> set_guest_mode x = x"
  unfolding is_guest_mode_def set_guest_mode_def MSR_F10H_EVNTSEL_GO_SHIFT_def
  by (metis bit_iff_and_push_bit_not_eq_0 set_bit_eq_or set_bit_eq_idem_iff)

lemma is_pmu_enabled_EVNTSEL_EN [simp]: "is_pmu_enabled EVNTSEL_EN"
  by (simp add: is_pmu_enabled_def EVNTSEL_EN_def MSR_F10H_EVNTSEL_EN_SHIFT_def)

lemma acquire_denied_unchanged:
  "\<not> fst (acquire_pmu_ownership c owner) \<Longrightarrow> snd (acquire_pmu_ownership c owner) = owner"
  by (simp add: acquire_pmu_ownership_def split: if_splits)

text \<open>What the loops over the bank do, for any index list.\<close>

lemma fold_wrmsrl:
  "fold (\<lambda>i h. wrmsrl (f i) (g i) h) xs h =
     h\<lparr>msr_writes := rev (map (\<lambda>i. (f i, g i)) xs) @ msr_writes h\<rparr>"
  by (induction xs arbitrary: h) (simp_all add: wrmsrl_def)

lemma fold_wrmsrl2:
  "fold (\<lambda>i h. wrmsrl (f i) (g i) (wrmsrl (f' i) (g' i) h)) xs h =
     h\<lparr>msr_writes :=
         rev (concat (map (\<lambda>i. [(f' i, g' i), (f i, g i)]) xs)) @ msr_writes h\<rparr>"
  by (induction xs arbitrary: h) (simp_all add: wrmsrl_def)

lemma fold_intercept_fields:
  "has_hvm_container_vcpu
     (fold (\<lambda>i v. svm_intercept_msr (f i) m (svm_intercept_msr (g i) m' v)) xs v) =
   has_hvm_container_vcpu v"
  "flags (fold (\<lambda>i v. svm_intercept_msr (f i) m (svm_intercept_msr (g i) m' v)) xs v) =
   flags v"
  "vpmu_context (fold (\<lambda>i v. svm_intercept_msr (f i) m (svm_intercept_msr (g i) m' v)) xs v) =
   vpmu_context v"
  "priv_context (fold (\<lambda>i v. svm_intercept_msr (f i) m (svm_intercept_msr (g i) m' v)) xs v) =
   priv_context v"
  "arch_vpmu_ops (fold (\<lambda>i v. svm_intercept_msr (f i) m (svm_intercept_msr (g i) m' v)) xs v) =
   arch_vpmu_ops v"
  by (induction xs arbitrary: v; simp add: svm_intercept_msr_def)+

lemma fold_intercept_same:
  "msr_intercepts
     (fold (\<lambda>i v. svm_intercept_msr (f i) m (svm_intercept_msr (g i) m v)) xs v) a =
     (if a \<in> f ` set xs \<union> g ` set xs then m else msr_intercepts v a)"
  by (induction xs arbitrary: v) (auto simp add: svm_intercept_msr_def)

lemma fold_counter_regs_upd:
  "n \<le> length (counter_regs c) \<Longrightarrow>
   fold (\<lambda>i c. c\<lparr>counter_regs := (counter_regs c)[i := g i]\<rparr>) [0..<n] c =
     c\<lparr>counter_regs := map g [0..<n] @ drop n (counter_regs c)\<rparr>"
proof (induction n)
  case 0
  then show ?case by simp
next
  case (Suc n)
  then show ?case
    by (simp add: list_update_append Cons_nth_drop_Suc [symmetric] upd_conv_take_nth_drop)
qed

text \<open>Reading the register file after a run of writes.\<close>

lemma map_of_const_prefix:
  "j \<in> set xs \<Longrightarrow> map_of (map (\<lambda>i. (f i, c)) xs @ ys) (f j) = Some c"
  by (induction xs) auto

lemma rdmsrl_after_const_writes:
  "j \<in> set xs \<Longrightarrow>
   rdmsrl (h\<lparr>msr_writes := rev (map (\<lambda>i. (f i, c)) xs) @ msr_writes h\<rparr>) (f j) = c"
  using map_of_const_prefix [of j "rev xs" f c "msr_writes h"]
  by (simp add: rdmsrl_def rev_map)

lemma rdmsrl_writes_miss:
  "msr_writes h' = ws @ msr_writes h \<Longrightarrow> msr_before h' = msr_before h \<Longrightarrow>
   a \<notin> fst ` set ws \<Longrightarrow> rdmsrl h' a = rdmsrl h a"
  by (simp add: rdmsrl_def map_add_def map_of_eq_None_iff [THEN iffD2] split: option.splits)

text \<open>The layouts that \<open>amd_vpmu_init\<close> can select.\<close>

lemma amd_vpmu_init_layout:
  "amd_vpmu_init x86 sz pg st = (0, lay) \<Longrightarrow> lay = layout_f10h \<or> lay = layout_f15h"
  by (auto simp add: amd_vpmu_init_def Let_def layout_f10h_def layout_f15h_def EINVAL_def
      ENOSPC_def split: if_splits)

lemma layout_shape:
  "lay = layout_f10h \<or> lay = layout_f15h \<Longrightarrow>
   length (counters lay) = num_counters lay \<and> length (ctrls lay) = num_counters lay \<and>
   set (counters lay) \<inter> set (ctrls lay) = {} \<and> distinct (counters lay) \<and> distinct (ctrls lay)"
  by (auto simp add: layout_defs msr_defs)

lemma amd_vpmu_init_f10h: "amd_vpmu_init 0x10 256 4096 layout_unset = (0, layout_f10h)"
  by (simp add: amd_vpmu_init_def layout_defs)

lemma amd_vpmu_init_f15h: "amd_vpmu_init 0x15 256 4096 layout_unset = (0, layout_f15h)"
  by (simp add: amd_vpmu_init_def layout_defs)

lemma ctrl_writes_miss_counters:
  assumes "lay = layout_f10h \<or> lay = layout_f15h" and "a \<in> set (counters lay)"
  shows "a \<notin> fst ` set (rev (map (\<lambda>i. (ctrls lay ! i, g i)) [0..<num_counters lay]))"
proof -
  from layout_shape [OF assms(1)] have len: "length (ctrls lay) = num_counters lay"
    and dis: "set (counters lay) \<inter> set (ctrls lay) = {}" by simp_all
  have "fst ` set (rev (map (\<lambda>i. (ctrls lay ! i, g i)) [0..<num_counters lay])) =
        (\<lambda>i. ctrls lay ! i) ` {0..<length (ctrls lay)}"
    by (simp add: len image_image)
  also have "\<dots> = set (ctrls lay)"
    by (auto simp add: set_conv_nth)
  finally show ?thesis using dis assms(2) by blast
qed

text \<open>The two paths of \<open>amd_vpmu_load\<close>.\<close>

lemma amd_vpmu_load_loaded:
  assumes "vpmu_context (current s) = Some ctxt"
    and "vpmu_is_set (current s) VPMU_CONTEXT_LOADED"
  shows "amd_vpmu_load lay s =
    Inr (s\<lparr>current := vpmu_reset VPMU_FROZEN (current s),
           hw := (hw s)\<lparr>msr_writes :=
             rev (map (\<lambda>i. (ctrls lay ! i, ctrl_regs ctxt ! i)) [0..<num_counters lay])
             @ msr_writes (hw s)\<rparr>\<rparr>)"
  using assms by (simp add: amd_vpmu_load_def Let_def fold_wrmsrl flag_defs)

lemma amd_vpmu_load_not_loaded:
  assumes "vpmu_context (current s) = Some ctxt"
    and "\<not> vpmu_is_set (current s) VPMU_CONTEXT_LOADED"
  shows "amd_vpmu_load lay s =
    Inr (s\<lparr>current := vpmu_set VPMU_CONTEXT_LOADED (vpmu_reset VPMU_FROZEN (current s)),
           hw := (hw s)\<lparr>msr_writes :=
             rev (concat (map (\<lambda>i. [(counters lay ! i, counter_regs ctxt ! i),
                                      (ctrls lay ! i, ctrl_regs ctxt ! i)])
                            [0..<num_counters lay]))
             @ msr_writes (hw s)\<rparr>\<rparr>)"
  using assms
  by (simp add: amd_vpmu_load_def Let_def context_load_def fold_wrmsrl2 flag_defs)

text \<open>\<open>context_save\<close> and \<open>amd_vpmu_unset_msr_bitmap\<close> on a whole bank.\<close>

lemma context_save_fits:
  "length (counter_regs c) = num_counters lay \<Longrightarrow>
   context_save lay h c =
     c\<lparr>counter_regs := map (\<lambda>i. rdmsrl h (counters lay ! i)) [0..<num_counters lay]\<rparr>"
  by (simp add: context_save_def fold_counter_regs_upd)

lemma unset_msr_bitmap_fields:
  "has_hvm_container_vcpu (amd_vpmu_unset_msr_bitmap lay v) = has_hvm_container_vcpu v"
  "flags (amd_vpmu_unset_msr_bitmap lay v) = flags v"
  "vpmu_context (amd_vpmu_unset_msr_bitmap lay v) = vpmu_context v"
  "priv_context (amd_vpmu_unset_msr_bitmap lay v) = False"
  "arch_vpmu_ops (amd_vpmu_unset_msr_bitmap lay v) = arch_vpmu_ops v"
  by (simp_all add: amd_vpmu_unset_msr_bitmap_def msr_bitmap_off_def fold_intercept_fields)

lemma unset_msr_bitmap_intercepts:
  "msr_intercepts (amd_vpmu_unset_msr_bitmap lay v) a =
     (if a \<in> (\<lambda>i. ctrls lay ! i) ` {0..<num_counters lay}
            \<union> (\<lambda>i. counters lay ! i) ` {0..<num_counters lay}
      then MSR_INTERCEPT_RW else msr_intercepts v a)"
  by (simp add: amd_vpmu_unset_msr_bitmap_def msr_bitmap_off_def fold_intercept_same)

lemma unset_msr_bitmap_bank:
  "i < num_counters lay \<Longrightarrow>
   msr_intercepts (amd_vpmu_unset_msr_bitmap lay v) (counters lay ! i) = MSR_INTERCEPT_RW
   \<and> msr_intercepts (amd_vpmu_unset_msr_bitmap lay v) (ctrls lay ! i) = MSR_INTERCEPT_RW"
  by (simp add: unset_msr_bitmap_intercepts)

text \<open>Facts about the write handler.\<close>

lemma set_msr_bitmap_fields:
  "has_hvm_container_vcpu (amd_vpmu_set_msr_bitmap lay v) = has_hvm_container_vcpu v"
  "flags (amd_vpmu_set_msr_bitmap lay v) = flags v"
  "vpmu_context (amd_vpmu_set_msr_bitmap lay v) = vpmu_context v"
  "priv_context (amd_vpmu_set_msr_bitmap lay v) = True"
  "arch_vpmu_ops (amd_vpmu_set_msr_bitmap lay v) = arch_vpmu_ops v"
  by (simp_all add: amd_vpmu_set_msr_bitmap_def msr_bitmap_on_def fold_intercept_fields)

lemma rdmsrl_last_write: "msr_writes h = (a, x) # ws \<Longrightarrow> rdmsrl h a = x"
  by (simp add: rdmsrl_def)

lemma acquire_granted:
  "fst (acquire_pmu_ownership c owner) \<Longrightarrow> snd (acquire_pmu_ownership c owner) = c"
  by (simp add: acquire_pmu_ownership_def split: if_splits)

text \<open>The blocks of the write handler.\<close>

lemma wrmsr_guest_only_eq:
  "wrmsr_guest_only v msr msr_content =
     (if has_hvm_container_vcpu v \<and> get_pmu_reg_type msr = MSR_TYPE_CTRL
      then set_guest_mode msr_content else msr_content)"
  by (simp add: wrmsr_guest_only_def set_guest_mode_idem)

lemma is_pmu_enabled_guest_only [simp]:
  "is_pmu_enabled (wrmsr_guest_only v msr msr_content) = is_pmu_enabled msr_content"
  by (simp add: wrmsr_guest_only_def)

lemma wrmsr_first_enabled_Inl:
  "wrmsr_first_enabled lay msr c s = Inl s' \<Longrightarrow>
   s' = s \<and> get_pmu_reg_type msr = MSR_TYPE_CTRL \<and> is_pmu_enabled c
   \<and> \<not> vpmu_is_set (current s) VPMU_RUNNING
   \<and> \<not> fst (acquire_pmu_ownership PMU_OWNER_HVM (pmu_owner s))"
  by (auto simp add: wrmsr_first_enabled_def Let_def acquire_denied_unchanged split: if_splits)

lemma wrmsr_first_enabled_Inr:
  assumes "wrmsr_first_enabled lay msr c s = Inr s1"
  shows "hw s1 = hw s"
    and "vpmu_context (current s1) = vpmu_context (current s)"
    and "has_hvm_container_vcpu (current s1) = has_hvm_container_vcpu (current s)"
    and "arch_vpmu_ops (current s1) = arch_vpmu_ops (current s)"
    and "priv_context (current s1) = priv_context (current s)"
    and "\<not> priv_context (current s) \<Longrightarrow> msr_intercepts (current s1) = msr_intercepts (current s)"
    and "flags (current s1) =
          (if get_pmu_reg_type msr = MSR_TYPE_CTRL \<and> is_pmu_enabled c
              \<and> VPMU_RUNNING \<notin> flags (current s)
           then insert VPMU_RUNNING (flags (current s)) else flags (current s))"
    and "pmu_owner s1 =
          (if get_pmu_reg_type msr = MSR_TYPE_CTRL \<and> is_pmu_enabled c
              \<and> VPMU_RUNNING \<notin> flags (current s)
           then PMU_OWNER_HVM else pmu_owner s)"
    and "get_pmu_reg_type msr = MSR_TYPE_CTRL \<and> is_pmu_enabled c
              \<and> VPMU_RUNNING \<notin> flags (current s)
         \<Longrightarrow> fst (acquire_pmu_ownership PMU_OWNER_HVM (pmu_owner s))"
  using assms
  by (auto simp add: wrmsr_first_enabled_def Let_def flag_defs is_msr_bitmap_on_def
      set_msr_bitmap_fields acquire_granted split: if_splits)

lemma wrmsr_first_enabled_total:
  "\<not> (get_pmu_reg_type msr = MSR_TYPE_CTRL \<and> is_pmu_enabled c
        \<and> \<not> vpmu_is_set (current s) VPMU_RUNNING
        \<and> \<not> fst (acquire_pmu_ownership PMU_OWNER_HVM (pmu_owner s))) \<Longrightarrow>
   \<exists>s1. wrmsr_first_enabled lay msr c s = Inr s1"
  by (auto simp add: wrmsr_first_enabled_def Let_def)

lemma wrmsr_first_stopped_fields:
  "hw (wrmsr_first_stopped lay msr c s) = hw s"
  "vpmu_context (current (wrmsr_first_stopped lay msr c s)) = vpmu_context (current s)"
  "has_hvm_container_vcpu (current (wrmsr_first_stopped lay msr c s)) =
     has_hvm_container_vcpu (current s)"
  "arch_vpmu_ops (current (wrmsr_first_stopped lay msr c s)) = arch_vpmu_ops (current s)"
  "\<not> priv_context (current s) \<Longrightarrow>
     \<not> priv_context (current (wrmsr_first_stopped lay msr c s))
     \<and> msr_intercepts (current (wrmsr_first_stopped lay msr c s)) = msr_intercepts (current s)"
  "flags (current (wrmsr_first_stopped lay msr c s)) =
     (if get_pmu_reg_type msr = MSR_TYPE_CTRL \<and> \<not> is_pmu_enabled c
         \<and> VPMU_RUNNING \<in> flags (current s)
      then flags (current s) - {VPMU_RUNNING} else flags (current s))"
  "pmu_owner (wrmsr_first_stopped lay msr c s) =
     (if get_pmu_reg_type msr = MSR_TYPE_CTRL \<and> \<not> is_pmu_enabled c
         \<and> VPMU_RUNNING \<in> flags (current s)
      then release_pmu_ownship PMU_OWNER_HVM (pmu_owner s) else pmu_owner s)"
  by (simp_all add: wrmsr_first_stopped_def Let_def flag_defs is_msr_bitmap_on_def
      unset_msr_bitmap_fields)

lemma wrmsr_load_Some:
  assumes "vpmu_context (current s) = Some ctxt"
  shows "wrmsr_load lay s =
     Inr (s\<lparr>hw := (if VPMU_CONTEXT_LOADED \<notin> flags (current s) \<or> VPMU_FROZEN \<in> flags (current s)
                    then context_load lay ctxt (hw s) else hw s),
             current := (current s)\<lparr>flags := insert VPMU_CONTEXT_LOADED (flags (current s))
                                              - {VPMU_FROZEN}\<rparr>\<rparr>)"
  using assms by (auto simp add: wrmsr_load_def flag_defs insert_absorb)

lemma wrmsr_update_Some:
  assumes "vpmu_context (current s) = Some ctxt"
  shows "wrmsr_update lay msr c s =
     Inr (s\<lparr>current := (current s)\<lparr>vpmu_context := Some (context_update lay msr c ctxt)\<rparr>,
             hw := (hw s)\<lparr>msr_writes := (msr, c) # msr_writes (hw s)\<rparr>\<rparr>)"
  using assms by (simp add: wrmsr_update_def wrmsrl_def)

lemma context_load_before [simp]: "msr_before (context_load lay ctxt h) = msr_before h"
  by (simp add: context_load_def fold_wrmsrl2)

lemma amd_vpmu_do_wrmsr_accepted:
  assumes ctx: "vpmu_context (current s) = Some ctxt"
    and acc: "\<not> (get_pmu_reg_type msr = MSR_TYPE_CTRL \<and> is_pmu_enabled msr_content
            \<and> \<not> vpmu_is_set (current s) VPMU_RUNNING
            \<and> \<not> fst (acquire_pmu_ownership PMU_OWNER_HVM (pmu_owner s)))"
    and val: "val = (if has_hvm_container_vcpu (current s) \<and> get_pmu_reg_type msr = MSR_TYPE_CTRL
                then set_guest_mode msr_content else msr_content)"
  shows "\<exists>s'. amd_vpmu_do_wrmsr lay msr msr_content 0 s = Inr (1, s')
    \<and> vpmu_context (current s') = Some (context_update lay msr val ctxt)
    \<and> msr_writes (hw s') =
         (msr, val) #
         (if \<not> vpmu_is_set (current s) VPMU_CONTEXT_LOADED \<or> vpmu_is_set (current s) VPMU_FROZEN
          then msr_writes (context_load lay ctxt (hw s)) else msr_writes (hw s))
    \<and> msr_before (hw s') = msr_before (hw s)
    \<and> vpmu_is_set (current s') VPMU_CONTEXT_LOADED
    \<and> \<not> vpmu_is_set (current s') VPMU_FROZEN
    \<and> has_hvm_container_vcpu (current s') = has_hvm_container_vcpu (current s)"
proof -
  have v: "wrmsr_guest_only (current s) msr msr_content = val"
    by (simp add: wrmsr_guest_only_eq val)
  have en: "is_pmu_enabled val = is_pmu_enabled msr_content"
    using val by simp
  from acc en obtain s1 where s1: "wrmsr_first_enabled lay msr val s = Inr s1"
    using wrmsr_first_enabled_total [of msr val s lay] by auto
  note f1 = wrmsr_first_enabled_Inr [OF s1]
  let ?s2 = "wrmsr_first_stopped lay msr val s1"
  have c2: "vpmu_context (current ?s2) = Some ctxt"
    by (simp add: wrmsr_first_stopped_fields f1 ctx)
  have h2: "hw ?s2 = hw s" by (simp add: wrmsr_first_stopped_fields f1)
  have l2: "(VPMU_CONTEXT_LOADED \<in> flags (current ?s2)) = (VPMU_CONTEXT_LOADED \<in> flags (current s))"
    "(VPMU_FROZEN \<in> flags (current ?s2)) = (VPMU_FROZEN \<in> flags (current s))"
    by (simp_all add: wrmsr_first_stopped_fields f1)
  have hv: "has_hvm_container_vcpu (current ?s2) = has_hvm_container_vcpu (current s)"
    by (simp add: wrmsr_first_stopped_fields f1)
  note ld = wrmsr_load_Some [OF c2, of lay]
  show ?thesis
    unfolding amd_vpmu_do_wrmsr_def Let_def v
    by (simp add: s1 ld wrmsr_update_Some [where ctxt = ctxt] c2 h2 l2 hv flag_defs)
qed

text \<open>Legacy addresses, the shadow update and concrete machines.\<close>

lemma k7_range_cases:
  assumes "MSR_K7_EVNTSEL0 \<le> msr" and "msr \<le> MSR_K7_PERFCTR3"
  shows "msr \<in> {MSR_K7_EVNTSEL0, MSR_K7_EVNTSEL1, MSR_K7_EVNTSEL2, MSR_K7_EVNTSEL3,
                 MSR_K7_PERFCTR0, MSR_K7_PERFCTR1, MSR_K7_PERFCTR2, MSR_K7_PERFCTR3}"
proof -
  from assms have "3221291008 \<le> unat msr" "unat msr \<le> 3221291015"
    by (simp_all add: msr_defs word_le_nat_alt)
  then have "unat msr \<in> {3221291008, 3221291009, 3221291010, 3221291011,
      3221291012, 3221291013, 3221291014, 3221291015}"
    by auto
  then have "of_nat (unat msr) \<in> (of_nat ` {3221291008, 3221291009, 3221291010, 3221291011,
      3221291012, 3221291013, 3221291014, 3221291015} :: 32 word set)"
    by (rule imageI)
  then show ?thesis by (simp add: msr_defs)
qed

lemma context_update_loop_no_match:
  "\<forall>i \<in> set is. a \<noteq> ctrls lay ! i \<and> a \<noteq> counters lay ! i \<Longrightarrow>
   context_update_loop lay a c is ctxt = ctxt"
  by (induction "is") simp_all

lemma upt6: "[0..<6] = [0, 1, 2, 3, 4, 5]"
  by (simp add: upt_rec)


lemma context_update_f15h_legacy_ctrl:
  "i < 4 \<Longrightarrow> context_update layout_f15h (AMD_F10H_CTRLS ! i) c ctxt =
     ctxt\<lparr>ctrl_regs := (ctrl_regs ctxt)[i := c]\<rparr>
   \<and> get_fam15h_addr (AMD_F10H_CTRLS ! i) = ctrls layout_f15h ! i"
proof -
  assume "i < 4"
  then consider "i = 0" | "i = 1" | "i = 2" | "i = 3" by linarith
  then show ?thesis
    by cases (simp_all add: context_update_def get_fam15h_addr_def layout_defs msr_defs upt6)
qed

lemma context_update_f15h_legacy_counter:
  "i < 4 \<Longrightarrow> context_update layout_f15h (AMD_F10H_COUNTERS ! i) c ctxt =
     ctxt\<lparr>counter_regs := (counter_regs ctxt)[i := c]\<rparr>
   \<and> get_fam15h_addr (AMD_F10H_COUNTERS ! i) = counters layout_f15h ! i"
proof -
  assume "i < 4"
  then consider "i = 0" | "i = 1" | "i = 2" | "i = 3" by linarith
  then show ?thesis
    by cases (simp_all add: context_update_def get_fam15h_addr_def layout_defs msr_defs upt6)
qed

lemma amd_vpmu_init_f15h_layout:
  "amd_vpmu_init 0x15 sz pg st = (0, lay) \<Longrightarrow> lay = layout_f15h"
  by (auto simp add: amd_vpmu_init_def Let_def layout_f15h_def ENOSPC_def split: if_splits)

lemma amd_vpmu_do_wrmsr_denied:
  assumes "get_pmu_reg_type msr = MSR_TYPE_CTRL"
    and "is_pmu_enabled msr_content"
    and "\<not> vpmu_is_set (current s) VPMU_RUNNING"
    and "\<not> fst (acquire_pmu_ownership PMU_OWNER_HVM (pmu_owner s))"
  shows "amd_vpmu_do_wrmsr lay msr msr_content 0 s = Inr (1, s)"
  using assms
  by (simp add: amd_vpmu_do_wrmsr_def wrmsr_guest_only_def wrmsr_first_enabled_def
      acquire_denied_unchanged)

lemma fresh_machine_simps:
  "counters lay \<noteq> [] \<Longrightarrow> vpmu_context (current (fresh_machine lay hvm owner)) =
     Some \<lparr>ctxt_counters = 8, ctxt_ctrls = 8 + 8 * of_nat (num_counters lay),
           counter_regs = replicate (num_counters lay) 0,
           ctrl_regs = replicate (num_counters lay) 0\<rparr>"
  "counters lay \<noteq> [] \<Longrightarrow> flags (current (fresh_machine lay hvm owner)) = {VPMU_CONTEXT_ALLOCATED}"
  "has_hvm_container_vcpu (current (fresh_machine lay hvm owner)) = hvm"
  "hw (fresh_machine lay hvm owner) = zero_msrs"
  "pmu_owner (fresh_machine lay hvm owner) = owner"
  "counters lay \<noteq> [] \<Longrightarrow> priv_context (current (fresh_machine lay hvm owner)) = False"
  by (simp_all add: fresh_defs flag_defs)

lemma loaded_machine_simps:
  "counters lay \<noteq> [] \<Longrightarrow> vpmu_context (current (loaded_machine lay hvm owner)) =
     Some \<lparr>ctxt_counters = 8, ctxt_ctrls = 8 + 8 * of_nat (num_counters lay),
           counter_regs = replicate (num_counters lay) 0,
           ctrl_regs = replicate (num_counters lay) 0\<rparr>"
  "counters lay \<noteq> [] \<Longrightarrow> flags (current (loaded_machine lay hvm owner)) =
     {VPMU_CONTEXT_LOADED, VPMU_CONTEXT_ALLOCATED}"
  "has_hvm_container_vcpu (current (loaded_machine lay hvm owner)) = hvm"
  "hw (loaded_machine lay hvm owner) = zero_msrs"
  "pmu_owner (loaded_machine lay hvm owner) = owner"
  by (simp_all add: loaded_machine_def Let_def fresh_machine_simps flag_defs)

lemma layout_nonempty [simp]: "counters layout_f10h \<noteq> []" "counters layout_f15h \<noteq> []"
  by (simp_all add: layout_defs)

lemma legacy_address_index:
  assumes "MSR_K7_EVNTSEL0 \<le> msr" and "msr \<le> MSR_K7_PERFCTR3"
  shows "\<exists>i<4. (if msr \<le> MSR_K7_EVNTSEL3 then msr = AMD_F10H_CTRLS ! i
                  else msr = AMD_F10H_COUNTERS ! i)"
proof -
  from k7_range_cases [OF assms]
  consider "msr = MSR_K7_EVNTSEL0" | "msr = MSR_K7_EVNTSEL1" | "msr = MSR_K7_EVNTSEL2"
    | "msr = MSR_K7_EVNTSEL3" | "msr = MSR_K7_PERFCTR0" | "msr = MSR_K7_PERFCTR1"
    | "msr = MSR_K7_PERFCTR2" | "msr = MSR_K7_PERFCTR3"
    by blast
  then show ?thesis
  proof cases
    case 1 then show ?thesis by (intro exI [of _ 0]) (simp add: layout_defs msr_defs)
  next
    case 2 then show ?thesis by (intro exI [of _ 1]) (simp add: layout_defs msr_defs)
  next
    case 3 then show ?thesis by (intro exI [of _ 2]) (simp add: layout_defs msr_defs)
  next
    case 4 then show ?thesis by (intro exI [of _ 3]) (simp add: layout_defs msr_defs)
  next
    case 5 then show ?thesis by (intro exI [of _ 0]) (simp add: layout_defs msr_defs)
  next
    case 6 then show ?thesis by (intro exI [of _ 1]) (simp add: layout_defs msr_defs)
  next
    case 7 then show ?thesis by (intro exI [of _ 2]) (simp add: layout_defs msr_defs)
  next
    case 8 then show ?thesis by (intro exI [of _ 3]) (simp add: layout_defs msr_defs)
  qed
qed

lemma legacy_address_redirected:
  assumes "MSR_K7_EVNTSEL0 \<le> msr" and "msr \<le> MSR_K7_PERFCTR3"
  shows "get_fam15h_addr msr \<noteq> msr"
  using k7_range_cases [OF assms] by (auto simp add: get_fam15h_addr_def msr_defs)



text \<open>What each operation does to \<open>RUNNING\<close>, the owner and the fast-path flag.\<close>

lemma wrmsr_load_Inr:
  assumes "wrmsr_load lay s = Inr s3"
  shows "pmu_owner s3 = pmu_owner s"
    and "(VPMU_RUNNING \<in> flags (current s3)) = (VPMU_RUNNING \<in> flags (current s))"
    and "priv_context (current s3) = priv_context (current s)"
    and "msr_intercepts (current s3) = msr_intercepts (current s)"
    and "has_hvm_container_vcpu (current s3) = has_hvm_container_vcpu (current s)"
  using assms
  by (auto simp add: wrmsr_load_def flag_defs split: if_splits option.splits)

lemma wrmsr_update_Inr:
  assumes "wrmsr_update lay msr c s = Inr s4"
  shows "pmu_owner s4 = pmu_owner s"
    and "flags (current s4) = flags (current s)"
    and "priv_context (current s4) = priv_context (current s)"
    and "msr_intercepts (current s4) = msr_intercepts (current s)"
    and "has_hvm_container_vcpu (current s4) = has_hvm_container_vcpu (current s)"
  using assms
  by (auto simp add: wrmsr_update_def split: option.splits)

lemma amd_vpmu_do_wrmsr_cases:
  assumes "amd_vpmu_do_wrmsr lay msr c0 0 s = Inr (rc, s')"
  obtains (denied) "s' = s" "get_pmu_reg_type msr = MSR_TYPE_CTRL" "is_pmu_enabled c0"
      "\<not> vpmu_is_set (current s) VPMU_RUNNING"
      "\<not> fst (acquire_pmu_ownership PMU_OWNER_HVM (pmu_owner s))"
  | (accepted) s1 s3 where
      "wrmsr_first_enabled lay msr (wrmsr_guest_only (current s) msr c0) s = Inr s1"
      "wrmsr_load lay
         (wrmsr_first_stopped lay msr (wrmsr_guest_only (current s) msr c0) s1) = Inr s3"
      "wrmsr_update lay msr (wrmsr_guest_only (current s) msr c0) s3 = Inr s'"
  using assms
  by (auto simp add: amd_vpmu_do_wrmsr_def Let_def dest: wrmsr_first_enabled_Inl
      split: sum.splits)

lemma amd_vpmu_do_wrmsr_running_all:
  assumes "amd_vpmu_do_wrmsr lay msr c0 0 s = Inr (rc, s')"
  shows "(VPMU_RUNNING \<notin> flags (current s) \<and> VPMU_RUNNING \<in> flags (current s') \<longrightarrow>
           fst (acquire_pmu_ownership PMU_OWNER_HVM (pmu_owner s))
           \<and> pmu_owner s' = PMU_OWNER_HVM)
    \<and> (VPMU_RUNNING \<in> flags (current s) \<and> VPMU_RUNNING \<notin> flags (current s') \<longrightarrow>
           pmu_owner s' = release_pmu_ownship PMU_OWNER_HVM (pmu_owner s))
    \<and> ((VPMU_RUNNING \<in> flags (current s')) = (VPMU_RUNNING \<in> flags (current s)) \<longrightarrow>
           pmu_owner s' = pmu_owner s)
    \<and> (\<not> priv_context (current s) \<longrightarrow>
           \<not> priv_context (current s')
           \<and> msr_intercepts (current s') = msr_intercepts (current s))
    \<and> has_hvm_container_vcpu (current s') = has_hvm_container_vcpu (current s)"
  using assms
proof (cases rule: amd_vpmu_do_wrmsr_cases)
  case denied
  then show ?thesis by simp
next
  case (accepted s1 s3)
  let ?c = "wrmsr_guest_only (current s) msr c0"
  note f1 = wrmsr_first_enabled_Inr [OF accepted(1)]
  note f3 = wrmsr_load_Inr [OF accepted(2)]
  note f4 = wrmsr_update_Inr [OF accepted(3)]
  have run: "(VPMU_RUNNING \<notin> flags (current s) \<and> VPMU_RUNNING \<in> flags (current s') \<longrightarrow>
           fst (acquire_pmu_ownership PMU_OWNER_HVM (pmu_owner s))
           \<and> pmu_owner s' = PMU_OWNER_HVM)
    \<and> (VPMU_RUNNING \<in> flags (current s) \<and> VPMU_RUNNING \<notin> flags (current s') \<longrightarrow>
           pmu_owner s' = release_pmu_ownship PMU_OWNER_HVM (pmu_owner s))
    \<and> ((VPMU_RUNNING \<in> flags (current s')) = (VPMU_RUNNING \<in> flags (current s)) \<longrightarrow>
           pmu_owner s' = pmu_owner s)"
    using f1(9) by (auto simp add: f4 f3 f1(7,8) wrmsr_first_stopped_fields split: if_splits)
  have off: "\<not> priv_context (current s')
           \<and> msr_intercepts (current s') = msr_intercepts (current s)"
    if p: "\<not> priv_context (current s)"
  proof -
    from p have p1: "\<not> priv_context (current s1)" by (simp add: f1)
    from wrmsr_first_stopped_fields(5) [OF p1, of lay msr ?c] f1(6) [OF p]
    show ?thesis by (simp add: f4 f3)
  qed
  have hvm: "has_hvm_container_vcpu (current s') = has_hvm_container_vcpu (current s)"
    by (simp add: f4 f3 f1 wrmsr_first_stopped_fields)
  from run off hvm show ?thesis by blast
qed

lemma amd_vpmu_do_wrmsr_running:
  assumes "amd_vpmu_do_wrmsr lay msr c0 0 s = Inr (rc, s')"
  shows "VPMU_RUNNING \<notin> flags (current s) \<Longrightarrow> VPMU_RUNNING \<in> flags (current s') \<Longrightarrow>
           fst (acquire_pmu_ownership PMU_OWNER_HVM (pmu_owner s)) \<and> pmu_owner s' = PMU_OWNER_HVM"
    and "VPMU_RUNNING \<in> flags (current s) \<Longrightarrow> VPMU_RUNNING \<notin> flags (current s') \<Longrightarrow>
           pmu_owner s' = release_pmu_ownship PMU_OWNER_HVM (pmu_owner s)"
    and "(VPMU_RUNNING \<in> flags (current s')) = (VPMU_RUNNING \<in> flags (current s)) \<Longrightarrow>
           pmu_owner s' = pmu_owner s"
    and "\<not> priv_context (current s) \<Longrightarrow>
           \<not> priv_context (current s') \<and> msr_intercepts (current s') = msr_intercepts (current s)"
    and "has_hvm_container_vcpu (current s') = has_hvm_container_vcpu (current s)"
  using amd_vpmu_do_wrmsr_running_all [OF assms] by blast+

lemma amd_vpmu_do_rdmsr_frame:
  assumes "amd_vpmu_do_rdmsr lay msr s = Inr (rc, val, s')"
  shows "pmu_owner s' = pmu_owner s"
    and "(VPMU_RUNNING \<in> flags (current s')) = (VPMU_RUNNING \<in> flags (current s))"
    and "priv_context (current s') = priv_context (current s)"
    and "msr_intercepts (current s') = msr_intercepts (current s)"
  using assms
  by (auto simp add: amd_vpmu_do_rdmsr_def Let_def flag_defs split: if_splits option.splits)

lemma amd_vpmu_load_frame:
  assumes "amd_vpmu_load lay s = Inr s'"
  shows "pmu_owner s' = pmu_owner s"
    and "(VPMU_RUNNING \<in> flags (current s')) = (VPMU_RUNNING \<in> flags (current s))"
    and "priv_context (current s') = priv_context (current s)"
    and "msr_intercepts (current s') = msr_intercepts (current s)"
  using assms
  by (auto simp add: amd_vpmu_load_def Let_def flag_defs split: if_splits option.splits)

lemma amd_vpmu_save_frame:
  assumes "amd_vpmu_save lay s = Inr (rc, s')"
  shows "pmu_owner s' = pmu_owner s"
    and "(VPMU_RUNNING \<in> flags (current s')) = (VPMU_RUNNING \<in> flags (current s))"
    and "\<not> priv_context (current s) \<Longrightarrow> \<not> priv_context (current s')"
  using assms
  by (auto simp add: amd_vpmu_save_def Let_def flag_defs is_msr_bitmap_on_def
      unset_msr_bitmap_fields split: if_splits option.splits)

lemma amd_vpmu_destroy_running:
  "VPMU_RUNNING \<notin> flags (current (amd_vpmu_destroy lay s))"
  "pmu_owner (amd_vpmu_destroy lay s) =
     (if VPMU_RUNNING \<in> flags (current s)
      then release_pmu_ownship PMU_OWNER_HVM (pmu_owner s) else pmu_owner s)"
  "\<not> priv_context (current s) \<Longrightarrow> \<not> priv_context (current (amd_vpmu_destroy lay s))"
  by (simp_all add: amd_vpmu_destroy_def Let_def flag_defs is_msr_bitmap_on_def
      unset_msr_bitmap_fields)

lemma svm_vpmu_initialise_frame:
  assumes "svm_vpmu_initialise vpmu_mode lay alloc_ok v = (rc, v')"
  shows "(VPMU_RUNNING \<in> flags v') = (VPMU_RUNNING \<in> flags v)"
    and "\<not> priv_context v \<Longrightarrow> \<not> priv_context v'"
  using assms
  by (auto simp add: svm_vpmu_initialise_def Let_def flag_defs split: if_splits)

lemma amd_vpmu_do_wrmsr_running_after:
  assumes "amd_vpmu_do_wrmsr lay msr c0 0 s = Inr (rc, s')"
    and "\<not> (get_pmu_reg_type msr = MSR_TYPE_CTRL \<and> is_pmu_enabled c0
            \<and> \<not> vpmu_is_set (current s) VPMU_RUNNING
            \<and> \<not> fst (acquire_pmu_ownership PMU_OWNER_HVM (pmu_owner s)))"
  shows "(VPMU_RUNNING \<in> flags (current s')) =
     (if get_pmu_reg_type msr = MSR_TYPE_CTRL then is_pmu_enabled c0
      else VPMU_RUNNING \<in> flags (current s))"
  using assms(1)
proof (cases rule: amd_vpmu_do_wrmsr_cases)
  case denied
  with assms(2) show ?thesis by simp
next
  case (accepted s1 s3)
  note f1 = wrmsr_first_enabled_Inr [OF accepted(1)]
  note f3 = wrmsr_load_Inr [OF accepted(2)]
  note f4 = wrmsr_update_Inr [OF accepted(3)]
  show ?thesis
    by (auto simp add: f4 f3 f1(7) wrmsr_first_stopped_fields split: if_splits)
qed

text \<open>The system of several virtual CPUs.\<close>

lemma vcpu_view_simps [simp]:
  "current (vcpu_view i t) = vcpus t i" "hw (vcpu_view i t) = sys_hw t"
  "pmu_owner (vcpu_view i t) = sys_owner t"
  by (simp_all add: vcpu_view_def)

lemma vcpu_put_simps [simp]:
  "vcpus (vcpu_put i m t) i = current m" "j \<noteq> i \<Longrightarrow> vcpus (vcpu_put i m t) j = vcpus t j"
  "sys_hw (vcpu_put i m t) = hw m" "sys_owner (vcpu_put i m t) = pmu_owner m"
  by (simp_all add: vcpu_put_def)






lemma sys_step_bitmap_off:
  assumes "sys_step lay a t t'" and "\<not> priv_context (vcpus t i)"
  shows "\<not> priv_context (vcpus t' i)"
  using assms(1)
proof (cases rule: sys_step.cases)
  case (initialise vpmu_mode alloc_ok j rc v')
  then show ?thesis using assms(2)
    by (cases "j = i") (auto dest: svm_vpmu_initialise_frame(2))
next
  case (do_wrmsr msr msr_content j rc m')
  then show ?thesis using assms(2)
    by (cases "j = i") (auto dest: amd_vpmu_do_wrmsr_running(4))
next
  case (do_rdmsr msr j rc val m')
  then show ?thesis using assms(2)
    by (cases "j = i") (auto dest: amd_vpmu_do_rdmsr_frame(3))
next
  case (load j m')
  then show ?thesis using assms(2)
    by (cases "j = i") (auto dest: amd_vpmu_load_frame(3))
next
  case (save j rc m')
  then show ?thesis using assms(2)
    by (cases "j = i") (auto dest: amd_vpmu_save_frame(3))
next
  case (destroy j)
  then show ?thesis using assms(2)
    by (cases "j = i") (simp_all add: amd_vpmu_destroy_running)
next
  case (frontend_set x j)
  then show ?thesis using assms(2) by (cases "j = i") (simp_all add: flag_defs)
next
  case (frontend_reset x j)
  then show ?thesis using assms(2) by (cases "j = i") (simp_all add: flag_defs)
next
  case (hardware h)
  then show ?thesis using assms(2) by simp
next
  case other_acquire
  then show ?thesis using assms(2) by simp
next
  case other_release
  then show ?thesis using assms(2) by simp
qed

lemma reachable_bitmap_off:
  "sys_reachable lay q t \<Longrightarrow> \<not> priv_context (vcpus t i)"
proof (induction rule: sys_reachable.induct)
  case (start t)
  then show ?case by (simp add: all_zeroed_def)
next
  case (step t a t')
  from sys_step_bitmap_off [OF step.hyps(2) step.IH] show ?case .
qed







section \<open>The claims\<close>

text \<open>
  C3. A control-register write that sets the enable bit while \<open>RUNNING\<close> is unset
  and whose ownership acquisition is denied returns 1 (handled) and leaves the whole
  machine as it was: no hardware write, no shadow update, no flag change, no
  intercept change, and the owner of the PMU unchanged.
\<close>

theorem denied_write_changes_nothing:
  assumes "get_pmu_reg_type msr = MSR_TYPE_CTRL"
    and "is_pmu_enabled msr_content"
    and "\<not> vpmu_is_set (current s) VPMU_RUNNING"
    and "\<not> fst (acquire_pmu_ownership PMU_OWNER_HVM (pmu_owner s))"
  shows "amd_vpmu_do_wrmsr lay msr msr_content 0 s = Inr (1, s)"
  using assms by (rule amd_vpmu_do_wrmsr_denied)

theorem denied_write_changes_nothing_witness:
  "amd_vpmu_do_wrmsr layout_f10h MSR_K7_EVNTSEL0 EVNTSEL_EN 0
     (fresh_machine layout_f10h True PMU_OWNER_XENOPROF) =
   Inr (1, fresh_machine layout_f10h True PMU_OWNER_XENOPROF)"
  using denied_write_changes_nothing
    [of MSR_K7_EVNTSEL0 EVNTSEL_EN "fresh_machine layout_f10h True PMU_OWNER_XENOPROF"
      layout_f10h]
  by (simp add: get_pmu_reg_type_def msr_defs MSR_TYPE_CTRL_def flag_defs fresh_defs
      layout_defs acquire_pmu_ownership_def)

text \<open>
  C6. \<open>amd_vpmu_save\<close> with \<open>CONTEXT_SAVE\<close> unset, on any context (loaded or not,
  even without storage): it returns 0 (\<open>Stopped\<close>), sets \<open>FROZEN\<close> and nothing else
  among the flags, writes zero to every control register of the bank and nothing else
  to the hardware, and leaves the shadow arrays, \<open>CONTEXT_LOADED\<close> and \<open>RUNNING\<close> as
  they were; so \<open>RUNNING\<close> stays set while every control register reads zero.
\<close>

theorem save_without_forced_flag_freezes:
  assumes "\<not> vpmu_is_set (current s) VPMU_CONTEXT_SAVE"
  shows "\<exists>s'. amd_vpmu_save lay s = Inr (0, s')
    \<and> vpmu_is_set (current s') VPMU_FROZEN
    \<and> msr_writes (hw s') =
        rev (map (\<lambda>i. (ctrls lay ! i, 0)) [0..<num_counters lay]) @ msr_writes (hw s)
    \<and> (\<forall>i<num_counters lay. rdmsrl (hw s') (ctrls lay ! i) = 0)
    \<and> vpmu_context (current s') = vpmu_context (current s)
    \<and> vpmu_is_set (current s') VPMU_CONTEXT_LOADED = vpmu_is_set (current s) VPMU_CONTEXT_LOADED
    \<and> vpmu_is_set (current s') VPMU_RUNNING = vpmu_is_set (current s) VPMU_RUNNING
    \<and> flags (current s') = insert VPMU_FROZEN (flags (current s))
    \<and> msr_intercepts (current s') = msr_intercepts (current s)
    \<and> priv_context (current s') = priv_context (current s)
    \<and> pmu_owner s' = pmu_owner s"
  using assms
  by (simp add: amd_vpmu_save_def Let_def fold_wrmsrl flag_defs rdmsrl_after_const_writes)

theorem save_without_forced_flag_freezes_witness:
  "\<not> vpmu_is_set (current (fresh_machine layout_f10h True PMU_OWNER_NONE)) VPMU_CONTEXT_SAVE
   \<and> (\<exists>s'. amd_vpmu_save layout_f10h (fresh_machine layout_f10h True PMU_OWNER_NONE) = Inr (0, s')
    \<and> vpmu_is_set (current s') VPMU_FROZEN
    \<and> rdmsrl (hw s') MSR_K7_EVNTSEL0 = 0
    \<and> rdmsrl (hw s') MSR_K7_EVNTSEL3 = 0
    \<and> vpmu_context (current s') =
        vpmu_context (current (fresh_machine layout_f10h True PMU_OWNER_NONE)))"
proof -
  let ?m = "fresh_machine layout_f10h True PMU_OWNER_NONE"
  have h: "\<not> vpmu_is_set (current ?m) VPMU_CONTEXT_SAVE"
    by (simp add: flag_defs fresh_defs)
  from save_without_forced_flag_freezes [OF h, of layout_f10h] obtain s' where
    s': "amd_vpmu_save layout_f10h ?m = Inr (0, s')" "vpmu_is_set (current s') VPMU_FROZEN"
     "\<forall>i<num_counters layout_f10h. rdmsrl (hw s') (ctrls layout_f10h ! i) = 0"
     "vpmu_context (current s') = vpmu_context (current ?m)"
    by blast
  from s'(3) [rule_format, of 0] s'(3) [rule_format, of 3]
  have "rdmsrl (hw s') MSR_K7_EVNTSEL0 = 0" "rdmsrl (hw s') MSR_K7_EVNTSEL3 = 0"
    by (simp_all add: layout_defs)
  with h s' show ?thesis by blast
qed

text \<open>
  C9. \<open>amd_vpmu_load\<close>, under a layout that \<open>amd_vpmu_init\<close> selected and on a
  context with storage: afterwards \<open>FROZEN\<close> is clear and \<open>CONTEXT_LOADED\<close> is set.
  If \<open>CONTEXT_LOADED\<close> was set, the hardware writes of the call are exactly the
  control registers from their shadow, in bank order, and every counter register
  reads as before. If it was unset, the writes are every counter and every control
  register from their shadow. A second load right after the first one takes the
  control-only path.
\<close>

theorem load_control_only_when_loaded:
  assumes "amd_vpmu_init x86 sz pg st0 = (0, lay)"
    and "vpmu_context (current s) = Some ctxt"
  shows "\<exists>s'. amd_vpmu_load lay s = Inr s'
    \<and> \<not> vpmu_is_set (current s') VPMU_FROZEN
    \<and> vpmu_is_set (current s') VPMU_CONTEXT_LOADED
    \<and> vpmu_context (current s') = Some ctxt
    \<and> (if vpmu_is_set (current s) VPMU_CONTEXT_LOADED
       then msr_writes (hw s') =
              rev (map (\<lambda>i. (ctrls lay ! i, ctrl_regs ctxt ! i)) [0..<num_counters lay])
              @ msr_writes (hw s)
            \<and> (\<forall>a \<in> set (counters lay). rdmsrl (hw s') a = rdmsrl (hw s) a)
       else msr_writes (hw s') =
              rev (concat (map (\<lambda>i. [(counters lay ! i, counter_regs ctxt ! i),
                                       (ctrls lay ! i, ctrl_regs ctxt ! i)])
                             [0..<num_counters lay]))
              @ msr_writes (hw s))
    \<and> (\<exists>s''. amd_vpmu_load lay s' = Inr s''
          \<and> msr_writes (hw s'') =
              rev (map (\<lambda>i. (ctrls lay ! i, ctrl_regs ctxt ! i)) [0..<num_counters lay])
              @ msr_writes (hw s')
          \<and> (\<forall>a \<in> set (counters lay). rdmsrl (hw s'') a = rdmsrl (hw s') a))"
proof -
  let ?cw = "rev (map (\<lambda>i. (ctrls lay ! i, ctrl_regs ctxt ! i)) [0..<num_counters lay])"
  from amd_vpmu_init_layout [OF assms(1)] have lay: "lay = layout_f10h \<or> lay = layout_f15h" .
  have cheap: "\<exists>t'. amd_vpmu_load lay t = Inr t'
      \<and> \<not> vpmu_is_set (current t') VPMU_FROZEN \<and> vpmu_is_set (current t') VPMU_CONTEXT_LOADED
      \<and> vpmu_context (current t') = Some ctxt
      \<and> msr_writes (hw t') = ?cw @ msr_writes (hw t)
      \<and> (\<forall>a \<in> set (counters lay). rdmsrl (hw t') a = rdmsrl (hw t) a)"
    if c: "vpmu_context (current t) = Some ctxt"
      and l: "vpmu_is_set (current t) VPMU_CONTEXT_LOADED" for t
  proof -
    let ?t' = "t\<lparr>current := vpmu_reset VPMU_FROZEN (current t),
                 hw := (hw t)\<lparr>msr_writes := ?cw @ msr_writes (hw t)\<rparr>\<rparr>"
    have "rdmsrl (hw ?t') a = rdmsrl (hw t) a" if "a \<in> set (counters lay)" for a
      by (rule rdmsrl_writes_miss [where ws = ?cw])
        (simp_all only: ctrl_writes_miss_counters [OF lay that] not_False_eq_True, simp_all)
    then have "\<forall>a \<in> set (counters lay). rdmsrl (hw ?t') a = rdmsrl (hw t) a" ..
    with amd_vpmu_load_loaded [OF c l, of lay] c l show ?thesis
      by (simp add: flag_defs)
  qed
  show ?thesis
  proof (cases "vpmu_is_set (current s) VPMU_CONTEXT_LOADED")
    case True
    from cheap [OF assms(2) True] obtain s' where
      s': "amd_vpmu_load lay s = Inr s'" "\<not> vpmu_is_set (current s') VPMU_FROZEN"
        "vpmu_is_set (current s') VPMU_CONTEXT_LOADED" "vpmu_context (current s') = Some ctxt"
        "msr_writes (hw s') = ?cw @ msr_writes (hw s)"
        "\<forall>a \<in> set (counters lay). rdmsrl (hw s') a = rdmsrl (hw s) a"
      by blast
    from cheap [OF s'(4) s'(3)] s' True show ?thesis by simp blast
  next
    case False
    let ?s' = "s\<lparr>current := vpmu_set VPMU_CONTEXT_LOADED (vpmu_reset VPMU_FROZEN (current s)),
           hw := (hw s)\<lparr>msr_writes :=
             rev (concat (map (\<lambda>i. [(counters lay ! i, counter_regs ctxt ! i),
                                      (ctrls lay ! i, ctrl_regs ctxt ! i)])
                            [0..<num_counters lay]))
             @ msr_writes (hw s)\<rparr>\<rparr>"
    have c': "vpmu_context (current ?s') = Some ctxt"
      and l': "vpmu_is_set (current ?s') VPMU_CONTEXT_LOADED"
      using assms(2) by (simp_all add: flag_defs)
    from cheap [OF c' l'] amd_vpmu_load_not_loaded [OF assms(2) False, of lay] False assms(2)
    show ?thesis by (simp add: flag_defs) blast
  qed
qed

theorem load_control_only_when_loaded_witness:
  "amd_vpmu_init 0x10 256 4096 layout_unset = (0, layout_f10h)
   \<and> vpmu_context (current (fresh_machine layout_f10h True PMU_OWNER_NONE)) =
       Some (the (vpmu_context (current (fresh_machine layout_f10h True PMU_OWNER_NONE))))
   \<and> (\<exists>s'. amd_vpmu_load layout_f10h (fresh_machine layout_f10h True PMU_OWNER_NONE) = Inr s'
        \<and> \<not> vpmu_is_set (current s') VPMU_FROZEN
        \<and> vpmu_is_set (current s') VPMU_CONTEXT_LOADED
        \<and> (\<exists>s''. amd_vpmu_load layout_f10h s' = Inr s''
             \<and> length (msr_writes (hw s'')) = length (msr_writes (hw s')) + 4))"
proof -
  let ?m = "fresh_machine layout_f10h True PMU_OWNER_NONE"
  have c: "vpmu_context (current ?m) = Some (the (vpmu_context (current ?m)))"
    by (simp add: fresh_defs flag_defs layout_defs)
  from load_control_only_when_loaded [OF amd_vpmu_init_f10h c] obtain s' s'' where
    "amd_vpmu_load layout_f10h ?m = Inr s'" "\<not> vpmu_is_set (current s') VPMU_FROZEN"
    "vpmu_is_set (current s') VPMU_CONTEXT_LOADED" "amd_vpmu_load layout_f10h s' = Inr s''"
    "msr_writes (hw s'') =
       rev (map (\<lambda>i. (ctrls layout_f10h ! i,
                        ctrl_regs (the (vpmu_context (current ?m))) ! i))
              [0..<num_counters layout_f10h]) @ msr_writes (hw s')"
    by blast
  moreover from this(5) have "length (msr_writes (hw s'')) = length (msr_writes (hw s')) + 4"
    by (simp add: layout_defs)
  ultimately show ?thesis using amd_vpmu_init_f10h c by blast
qed

text \<open>
  C5, as the code has it. \<open>svm_vpmu_initialise\<close> returns 0 when the global mode is
  off; when the mode is not off and the layout table is empty (\<open>counters\<close> is NULL),
  which includes the state after the shared-page check of \<open>amd_vpmu_init\<close> has reset
  the table and the bank size, it returns the error \<open>-EINVAL\<close>; when the allocation
  fails it returns \<open>-ENOMEM\<close>. In all three cases the virtual CPU is unchanged: no
  context, no operations, no flag.
\<close>

theorem initialise_without_context:
  "(vpmu_mode = XENPMU_MODE_OFF \<longrightarrow>
      svm_vpmu_initialise vpmu_mode lay alloc_ok v = (0, v))
   \<and> (vpmu_mode \<noteq> XENPMU_MODE_OFF \<and> counters lay = [] \<longrightarrow>
      svm_vpmu_initialise vpmu_mode lay alloc_ok v = (- EINVAL, v))
   \<and> (vpmu_mode \<noteq> XENPMU_MODE_OFF \<and> counters lay \<noteq> [] \<and> \<not> alloc_ok \<longrightarrow>
      svm_vpmu_initialise vpmu_mode lay alloc_ok v = (- ENOMEM, v))
   \<and> (fst (amd_vpmu_init x86 sz pg st) = - ENOSPC \<longrightarrow>
      num_counters (snd (amd_vpmu_init x86 sz pg st)) = 0
      \<and> counters (snd (amd_vpmu_init x86 sz pg st)) = []
      \<and> svm_vpmu_initialise vpmu_mode (snd (amd_vpmu_init x86 sz pg st)) alloc_ok v =
          (if vpmu_mode = XENPMU_MODE_OFF then 0 else - EINVAL, v))"
  by (simp add: svm_vpmu_initialise_def amd_vpmu_init_def Let_def EINVAL_def ENOSPC_def)

theorem initialise_without_context_witness:
  "svm_vpmu_initialise XENPMU_MODE_OFF layout_f10h True (blank_vcpu True) = (0, blank_vcpu True)
   \<and> svm_vpmu_initialise 1 layout_unset True (blank_vcpu True) = (- EINVAL, blank_vcpu True)
   \<and> svm_vpmu_initialise 1 layout_f10h False (blank_vcpu True) = (- ENOMEM, blank_vcpu True)
   \<and> fst (amd_vpmu_init 0x15 4096 4096 layout_unset) = - ENOSPC
   \<and> svm_vpmu_initialise 1 (snd (amd_vpmu_init 0x15 4096 4096 layout_unset)) True
        (blank_vcpu True) = (- EINVAL, blank_vcpu True)"
  using initialise_without_context
    [of XENPMU_MODE_OFF layout_f10h True "blank_vcpu True" "0x15" 4096 4096 layout_unset]
    initialise_without_context
    [of 1 layout_unset True "blank_vcpu True" "0x15" 4096 4096 layout_unset]
    initialise_without_context
    [of 1 layout_f10h False "blank_vcpu True" "0x15" 4096 4096 layout_unset]
  by (simp add: XENPMU_MODE_OFF_def layout_unset_def layout_defs msr_defs amd_vpmu_init_def
      ENOSPC_def EINVAL_def)

text \<open>
  C5 as stated fails: after the shared-page check has emptied the table, the
  initialisation of a guest (mode not off) returns \<open>-EINVAL\<close>, a negative error
  code, while with the mode off it returns 0.
\<close>

theorem initialise_empty_layout_is_error:
  "fst (svm_vpmu_initialise 1 tiny_page_layout True (blank_vcpu True)) = - EINVAL
   \<and> \<not> 0 \<le> fst (svm_vpmu_initialise 1 tiny_page_layout True (blank_vcpu True))
   \<and> fst (svm_vpmu_initialise XENPMU_MODE_OFF tiny_page_layout True (blank_vcpu True)) = 0"
  by (simp add: tiny_page_layout_def amd_vpmu_init_def svm_vpmu_initialise_def
      XENPMU_MODE_OFF_def EINVAL_def layout_defs Let_def)

text \<open>
  C7, as the code has it. \<open>amd_vpmu_save\<close> with \<open>CONTEXT_SAVE\<close> set, on a virtual
  CPU whose fast-path intercept is active only if it is an HVM one (no operation of
  vpmu.c turns it on otherwise). If \<open>CONTEXT_LOADED\<close> is unset, the call changes
  nothing and returns 0, the value of the freeze path, not the 1 of a completed save.
  Otherwise it returns 1, copies every counter's hardware value into the counter
  shadow, leaves the control shadow, the hardware, the flags and the owner as they
  were, and reverts every register of the bank to the read-write trap exactly when
  \<open>RUNNING\<close> is unset and the fast-path intercept is active.
\<close>

theorem forced_save_copies_counters:
  assumes "vpmu_is_set (current s) VPMU_CONTEXT_SAVE"
    and "is_msr_bitmap_on (current s) \<longrightarrow> has_hvm_container_vcpu (current s)"
  shows "(\<not> vpmu_is_set (current s) VPMU_CONTEXT_LOADED \<longrightarrow> amd_vpmu_save lay s = Inr (0, s))
    \<and> (vpmu_is_set (current s) VPMU_CONTEXT_LOADED \<and> vpmu_context (current s) = Some ctxt
         \<and> ctxt_fits lay ctxt \<longrightarrow>
        (\<exists>s' ctxt'. amd_vpmu_save lay s = Inr (1, s')
           \<and> vpmu_context (current s') = Some ctxt'
           \<and> counter_regs ctxt' =
               map (\<lambda>i. rdmsrl (hw s) (counters lay ! i)) [0..<num_counters lay]
           \<and> ctrl_regs ctxt' = ctrl_regs ctxt
           \<and> hw s' = hw s \<and> flags (current s') = flags (current s)
           \<and> pmu_owner s' = pmu_owner s
           \<and> (if \<not> vpmu_is_set (current s) VPMU_RUNNING \<and> is_msr_bitmap_on (current s)
              then \<not> is_msr_bitmap_on (current s')
                   \<and> (\<forall>i<num_counters lay.
                         msr_intercepts (current s') (counters lay ! i) = MSR_INTERCEPT_RW
                         \<and> msr_intercepts (current s') (ctrls lay ! i) = MSR_INTERCEPT_RW)
              else msr_intercepts (current s') = msr_intercepts (current s)
                   \<and> is_msr_bitmap_on (current s') = is_msr_bitmap_on (current s))))"
  using assms
  by (auto simp add: amd_vpmu_save_def Let_def ctxt_fits_def context_save_fits flag_defs
      is_msr_bitmap_on_def unset_msr_bitmap_fields unset_msr_bitmap_bank)

theorem forced_save_copies_counters_witness:
  "vpmu_is_set (current (forced_save_machine True True)) VPMU_CONTEXT_SAVE
   \<and> has_hvm_container_vcpu (current (forced_save_machine True True))
   \<and> is_msr_bitmap_on (current (forced_save_machine True True))
   \<and> amd_vpmu_save layout_f10h (forced_save_machine False True) =
        Inr (0, forced_save_machine False True)
   \<and> (\<exists>s' ctxt'. amd_vpmu_save layout_f10h (forced_save_machine True True) = Inr (1, s')
         \<and> vpmu_context (current s') = Some ctxt'
         \<and> counter_regs ctxt' = [0, 0, 0, 0]
         \<and> \<not> is_msr_bitmap_on (current s')
         \<and> msr_intercepts (current s') MSR_K7_PERFCTR3 = MSR_INTERCEPT_RW)"
proof -
  let ?m = "forced_save_machine True True"
  let ?c = "the (vpmu_context (current ?m))"
  have h: "vpmu_is_set (current ?m) VPMU_CONTEXT_SAVE"
    "has_hvm_container_vcpu (current ?m)" "is_msr_bitmap_on (current ?m)"
    "vpmu_is_set (current ?m) VPMU_CONTEXT_LOADED" "vpmu_context (current ?m) = Some ?c"
    "ctxt_fits layout_f10h ?c" "\<not> vpmu_is_set (current ?m) VPMU_RUNNING"
    by (simp_all add: forced_save_machine_def Let_def flag_defs fresh_defs layout_defs
        is_msr_bitmap_on_def msr_bitmap_on_def ctxt_fits_def)
  have h0: "vpmu_is_set (current (forced_save_machine False True)) VPMU_CONTEXT_SAVE"
    "has_hvm_container_vcpu (current (forced_save_machine False True))"
    "\<not> vpmu_is_set (current (forced_save_machine False True)) VPMU_CONTEXT_LOADED"
    by (simp_all add: forced_save_machine_def Let_def flag_defs fresh_defs layout_defs
        msr_bitmap_on_def)
  from forced_save_copies_counters [of "forced_save_machine False True" layout_f10h] h0
  have a: "amd_vpmu_save layout_f10h (forced_save_machine False True) =
        Inr (0, forced_save_machine False True)"
    by simp
  from forced_save_copies_counters [of ?m layout_f10h ?c] h
  obtain s' ctxt' where s': "amd_vpmu_save layout_f10h ?m = Inr (1, s')"
    "vpmu_context (current s') = Some ctxt'"
    "counter_regs ctxt' =
       map (\<lambda>i. rdmsrl (hw ?m) (counters layout_f10h ! i)) [0..<num_counters layout_f10h]"
    "\<not> is_msr_bitmap_on (current s')"
    "\<forall>i<num_counters layout_f10h.
        msr_intercepts (current s') (counters layout_f10h ! i) = MSR_INTERCEPT_RW
        \<and> msr_intercepts (current s') (ctrls layout_f10h ! i) = MSR_INTERCEPT_RW"
    by auto
  have z: "rdmsrl (hw ?m) a = 0" for a
    by (simp add: forced_save_machine_def Let_def fresh_defs rdmsrl_def)
  from s'(3) have "counter_regs ctxt' = [0, 0, 0, 0]"
    by (simp add: z layout_defs map_replicate_const eval_nat_numeral)
  moreover from s'(5) [rule_format, of 3]
  have "msr_intercepts (current s') MSR_K7_PERFCTR3 = MSR_INTERCEPT_RW"
    by (simp add: layout_defs)
  ultimately show ?thesis using h a s' by blast
qed

text \<open>
  C7 as stated fails on the result of the no-op: on a context that was never loaded
  the forced save returns 0, while the save that copies the counters returns 1.
\<close>

theorem forced_save_never_loaded_returns_zero:
  "map_sum id fst (amd_vpmu_save layout_f10h (forced_save_machine False False)) = Inr 0
   \<and> map_sum id fst (amd_vpmu_save layout_f10h (forced_save_machine True False)) = Inr 1"
  by (simp add: forced_save_machine_def amd_vpmu_save_def Let_def flag_defs fresh_defs
     is_msr_bitmap_on_def layout_defs)

text \<open>
  C4, as the code has it. Under the family 15h layout (legacy aliases mirrored), a
  write through a legacy K7 address that is not rejected for ownership updates the
  shadow entry of the extended bank paired with the alias: for the \<open>i\<close>-th legacy
  control address the control shadow at index \<open>i\<close>, for the \<open>i\<close>-th legacy counter
  address the counter shadow at index \<open>i\<close>, and nothing else in the context. The
  write to the hardware is issued to the legacy address as the guest wrote it, which
  differs from the redirected one; it follows the writes of the context load, if the
  context had to be loaded. \<open>val\<close> is the value with the guest-only bit forced for
  a control register of an HVM guest.
\<close>

theorem legacy_write_updates_paired_shadow:
  assumes init: "amd_vpmu_init 0x15 sz pg st0 = (0, lay)"
    and ctx: "vpmu_context (current s) = Some ctxt"
    and fits: "ctxt_fits lay ctxt"
    and acc: "\<not> (get_pmu_reg_type msr = MSR_TYPE_CTRL \<and> is_pmu_enabled msr_content
            \<and> \<not> vpmu_is_set (current s) VPMU_RUNNING
            \<and> \<not> fst (acquire_pmu_ownership PMU_OWNER_HVM (pmu_owner s)))"
    and lo: "MSR_K7_EVNTSEL0 \<le> msr" and hi: "msr \<le> MSR_K7_PERFCTR3"
    and val: "val = (if has_hvm_container_vcpu (current s) \<and> get_pmu_reg_type msr = MSR_TYPE_CTRL
                then set_guest_mode msr_content else msr_content)"
  shows "\<exists>s' i. i < 4 \<and> i < length (ctrl_regs ctxt) \<and> i < length (counter_regs ctxt)
    \<and> amd_vpmu_do_wrmsr lay msr msr_content 0 s = Inr (1, s')
    \<and> (if msr \<le> MSR_K7_EVNTSEL3
       then msr = AMD_F10H_CTRLS ! i \<and> get_fam15h_addr msr = ctrls lay ! i
            \<and> vpmu_context (current s') = Some (ctxt\<lparr>ctrl_regs := (ctrl_regs ctxt)[i := val]\<rparr>)
       else msr = AMD_F10H_COUNTERS ! i \<and> get_fam15h_addr msr = counters lay ! i
            \<and> vpmu_context (current s') =
                Some (ctxt\<lparr>counter_regs := (counter_regs ctxt)[i := val]\<rparr>))
    \<and> msr_writes (hw s') =
         (msr, val) #
         (if \<not> vpmu_is_set (current s) VPMU_CONTEXT_LOADED \<or> vpmu_is_set (current s) VPMU_FROZEN
          then msr_writes (context_load lay ctxt (hw s)) else msr_writes (hw s))
    \<and> get_fam15h_addr msr \<noteq> msr"
proof -
  from amd_vpmu_init_f15h_layout [OF init] have lay: "lay = layout_f15h" .
  from legacy_address_index [OF lo hi] obtain i where i: "i < 4"
    and m: "if msr \<le> MSR_K7_EVNTSEL3 then msr = AMD_F10H_CTRLS ! i
            else msr = AMD_F10H_COUNTERS ! i"
    by blast
  from fits i have len: "i < length (ctrl_regs ctxt)" "i < length (counter_regs ctxt)"
    by (simp_all add: ctxt_fits_def lay layout_defs)
  from amd_vpmu_do_wrmsr_accepted [OF ctx acc val, of lay] obtain s' where
    s': "amd_vpmu_do_wrmsr lay msr msr_content 0 s = Inr (1, s')"
      "vpmu_context (current s') = Some (context_update lay msr val ctxt)"
      "msr_writes (hw s') =
         (msr, val) #
         (if \<not> vpmu_is_set (current s) VPMU_CONTEXT_LOADED \<or> vpmu_is_set (current s) VPMU_FROZEN
          then msr_writes (context_load lay ctxt (hw s)) else msr_writes (hw s))"
    by blast
  have u: "if msr \<le> MSR_K7_EVNTSEL3
       then msr = AMD_F10H_CTRLS ! i \<and> get_fam15h_addr msr = ctrls lay ! i
            \<and> vpmu_context (current s') = Some (ctxt\<lparr>ctrl_regs := (ctrl_regs ctxt)[i := val]\<rparr>)
       else msr = AMD_F10H_COUNTERS ! i \<and> get_fam15h_addr msr = counters lay ! i
            \<and> vpmu_context (current s') =
                Some (ctxt\<lparr>counter_regs := (counter_regs ctxt)[i := val]\<rparr>)"
  proof (cases "msr \<le> MSR_K7_EVNTSEL3")
    case True
    with m have "msr = AMD_F10H_CTRLS ! i" by simp
    with True s'(2) context_update_f15h_legacy_ctrl [OF i, of val ctxt] show ?thesis
      by (simp add: lay)
  next
    case False
    with m have "msr = AMD_F10H_COUNTERS ! i" by simp
    with False s'(2) context_update_f15h_legacy_counter [OF i, of val ctxt] show ?thesis
      by (simp add: lay)
  qed
  from i len s'(1) u s'(3) legacy_address_redirected [OF lo hi] show ?thesis
    by blast
qed

theorem legacy_write_updates_paired_shadow_witness:
  "amd_vpmu_init 0x15 256 4096 layout_unset = (0, layout_f15h)
   \<and> MSR_K7_EVNTSEL0 \<le> MSR_K7_EVNTSEL2 \<and> MSR_K7_EVNTSEL2 \<le> MSR_K7_PERFCTR3
   \<and> (\<exists>s' c'. amd_vpmu_do_wrmsr layout_f15h MSR_K7_EVNTSEL2 EVNTSEL_EN 0
                 (loaded_machine layout_f15h True PMU_OWNER_NONE) = Inr (1, s')
         \<and> vpmu_context (current s') = Some c'
         \<and> ctrl_regs c' = [0, 0, set_guest_mode EVNTSEL_EN, 0, 0, 0]
         \<and> counter_regs c' = [0, 0, 0, 0, 0, 0]
         \<and> msr_writes (hw s') = [(MSR_K7_EVNTSEL2, set_guest_mode EVNTSEL_EN)])"
proof -
  let ?m = "loaded_machine layout_f15h True PMU_OWNER_NONE"
  let ?c = "the (vpmu_context (current ?m))"
  have c: "vpmu_context (current ?m) = Some ?c" by (simp add: loaded_machine_simps)
  have f: "ctxt_fits layout_f15h ?c"
    by (simp add: loaded_machine_simps ctxt_fits_def)
  have t: "get_pmu_reg_type MSR_K7_EVNTSEL2 = MSR_TYPE_CTRL"
    by (simp add: get_pmu_reg_type_def msr_defs)
  have a: "\<not> (get_pmu_reg_type MSR_K7_EVNTSEL2 = MSR_TYPE_CTRL \<and> is_pmu_enabled EVNTSEL_EN
            \<and> \<not> vpmu_is_set (current ?m) VPMU_RUNNING
            \<and> \<not> fst (acquire_pmu_ownership PMU_OWNER_HVM (pmu_owner ?m)))"
    by (simp add: loaded_machine_simps acquire_pmu_ownership_def)
  have lo: "MSR_K7_EVNTSEL0 \<le> MSR_K7_EVNTSEL2" and hi: "MSR_K7_EVNTSEL2 \<le> MSR_K7_PERFCTR3"
    and le: "MSR_K7_EVNTSEL2 \<le> MSR_K7_EVNTSEL3"
    by (simp_all add: msr_defs)
  have v: "set_guest_mode EVNTSEL_EN =
      (if has_hvm_container_vcpu (current ?m) \<and> get_pmu_reg_type MSR_K7_EVNTSEL2 = MSR_TYPE_CTRL
       then set_guest_mode EVNTSEL_EN else EVNTSEL_EN)"
    by (simp add: t loaded_machine_simps)
  from legacy_write_updates_paired_shadow [OF amd_vpmu_init_f15h c f a lo hi v]
  obtain s' i where r: "i < 4"
    "amd_vpmu_do_wrmsr layout_f15h MSR_K7_EVNTSEL2 EVNTSEL_EN 0 ?m = Inr (1, s')"
    "MSR_K7_EVNTSEL2 = AMD_F10H_CTRLS ! i"
    "vpmu_context (current s') =
       Some (?c\<lparr>ctrl_regs := (ctrl_regs ?c)[i := set_guest_mode EVNTSEL_EN]\<rparr>)"
    "msr_writes (hw s') = [(MSR_K7_EVNTSEL2, set_guest_mode EVNTSEL_EN)]"
    by (auto simp add: le loaded_machine_simps flag_defs zero_msrs_def)
  from r(1) consider "i = 0" | "i = 1" | "i = 2" | "i = 3" by linarith
  then have i: "i = 2" using r(3) by cases (simp_all add: layout_defs msr_defs)
  from r(4) have "ctrl_regs (the (vpmu_context (current s'))) =
        [0, 0, set_guest_mode EVNTSEL_EN, 0, 0, 0]"
    "counter_regs (the (vpmu_context (current s'))) = [0, 0, 0, 0, 0, 0]"
    by (simp_all add: i loaded_machine_simps layout_defs eval_nat_numeral)
  with r(2,4,5) amd_vpmu_init_f15h lo hi show ?thesis by auto
qed

text \<open>
  C4 as stated fails on the hardware write: on a loaded context the only hardware
  write of a write to the legacy alias of control register 2 goes to the legacy
  address \<open>MSR_K7_EVNTSEL2\<close>, not to the redirected \<open>MSR_AMD_FAM15H_EVNTSEL2\<close>.
\<close>

theorem legacy_write_goes_to_legacy_address:
  "map_sum id (msr_writes \<circ> hw \<circ> snd)
     (amd_vpmu_do_wrmsr layout_f15h MSR_K7_EVNTSEL2 EVNTSEL_EN 0
        (loaded_machine layout_f15h True PMU_OWNER_NONE)) =
     Inr [(MSR_K7_EVNTSEL2, set_guest_mode EVNTSEL_EN)]
   \<and> get_fam15h_addr MSR_K7_EVNTSEL2 = MSR_AMD_FAM15H_EVNTSEL2
   \<and> MSR_AMD_FAM15H_EVNTSEL2 \<noteq> MSR_K7_EVNTSEL2"
proof -
  let ?m = "loaded_machine layout_f15h True PMU_OWNER_NONE"
  let ?c = "the (vpmu_context (current ?m))"
  have c: "vpmu_context (current ?m) = Some ?c" by (simp add: loaded_machine_simps)
  have t: "get_pmu_reg_type MSR_K7_EVNTSEL2 = MSR_TYPE_CTRL"
    by (simp add: get_pmu_reg_type_def msr_defs)
  have a: "\<not> (get_pmu_reg_type MSR_K7_EVNTSEL2 = MSR_TYPE_CTRL \<and> is_pmu_enabled EVNTSEL_EN
            \<and> \<not> vpmu_is_set (current ?m) VPMU_RUNNING
            \<and> \<not> fst (acquire_pmu_ownership PMU_OWNER_HVM (pmu_owner ?m)))"
    by (simp add: loaded_machine_simps acquire_pmu_ownership_def)
  have v: "set_guest_mode EVNTSEL_EN =
      (if has_hvm_container_vcpu (current ?m) \<and> get_pmu_reg_type MSR_K7_EVNTSEL2 = MSR_TYPE_CTRL
       then set_guest_mode EVNTSEL_EN else EVNTSEL_EN)"
    by (simp add: t loaded_machine_simps)
  from amd_vpmu_do_wrmsr_accepted [OF c a v, of layout_f15h] obtain s' where
    "amd_vpmu_do_wrmsr layout_f15h MSR_K7_EVNTSEL2 EVNTSEL_EN 0 ?m = Inr (1, s')"
    "msr_writes (hw s') = [(MSR_K7_EVNTSEL2, set_guest_mode EVNTSEL_EN)]"
    by (auto simp add: loaded_machine_simps flag_defs zero_msrs_def)
  then show ?thesis
    by (simp add: get_fam15h_addr_def msr_defs)
qed




text \<open>
  C10, as the code has it. A write whose (possibly redirected) address matches no
  entry of the layout table and that is not rejected for ownership returns 1, leaves
  both shadow arrays (the whole context) unchanged and writes the value through to the
  address \<open>msr\<close> itself, as the last hardware write of the call. \<open>val\<close> is the guest's
  value with the guest-only bit forced when the address is of control type and the
  guest is an HVM one.
\<close>

theorem unmatched_write_passes_through:
  assumes "vpmu_context (current s) = Some ctxt"
    and "\<not> (get_pmu_reg_type msr = MSR_TYPE_CTRL \<and> is_pmu_enabled msr_content
            \<and> \<not> vpmu_is_set (current s) VPMU_RUNNING
            \<and> \<not> fst (acquire_pmu_ownership PMU_OWNER_HVM (pmu_owner s)))"
    and "\<forall>i<num_counters lay.
           (if k7_counters_mirrored lay \<and> MSR_K7_EVNTSEL0 \<le> msr \<and> msr \<le> MSR_K7_PERFCTR3
            then get_fam15h_addr msr else msr) \<noteq> ctrls lay ! i
         \<and> (if k7_counters_mirrored lay \<and> MSR_K7_EVNTSEL0 \<le> msr \<and> msr \<le> MSR_K7_PERFCTR3
            then get_fam15h_addr msr else msr) \<noteq> counters lay ! i"
    and "val = (if has_hvm_container_vcpu (current s) \<and> get_pmu_reg_type msr = MSR_TYPE_CTRL
                then set_guest_mode msr_content else msr_content)"
  shows "\<exists>s'. amd_vpmu_do_wrmsr lay msr msr_content 0 s = Inr (1, s')
    \<and> vpmu_context (current s') = Some ctxt
    \<and> hd (msr_writes (hw s')) = (msr, val)
    \<and> rdmsrl (hw s') msr = val"
proof -
  have "context_update lay msr val ctxt = ctxt"
    using assms(3) by (simp add: context_update_def Let_def context_update_loop_no_match)
  with amd_vpmu_do_wrmsr_accepted [OF assms(1,2,4), of lay] show ?thesis
    by (auto simp add: rdmsrl_last_write)
qed

theorem unmatched_write_passes_through_witness:
  "vpmu_context (current (fresh_machine layout_f10h True PMU_OWNER_NONE)) =
     Some (the (vpmu_context (current (fresh_machine layout_f10h True PMU_OWNER_NONE))))
   \<and> (\<exists>s'. amd_vpmu_do_wrmsr layout_f10h MSR_AMD_FAM15H_PERFCTR0 5 0
              (fresh_machine layout_f10h True PMU_OWNER_NONE) = Inr (1, s')
         \<and> vpmu_context (current s') =
             vpmu_context (current (fresh_machine layout_f10h True PMU_OWNER_NONE))
         \<and> hd (msr_writes (hw s')) = (MSR_AMD_FAM15H_PERFCTR0, 5)
         \<and> rdmsrl (hw s') MSR_AMD_FAM15H_PERFCTR0 = 5)"
proof -
  let ?m = "fresh_machine layout_f10h True PMU_OWNER_NONE"
  have c: "vpmu_context (current ?m) = Some (the (vpmu_context (current ?m)))"
    by (simp add: fresh_machine_simps)
  have t: "get_pmu_reg_type MSR_AMD_FAM15H_PERFCTR0 = MSR_TYPE_COUNTER"
    by (simp add: get_pmu_reg_type_def msr_defs)
  have a: "\<not> (get_pmu_reg_type MSR_AMD_FAM15H_PERFCTR0 = MSR_TYPE_CTRL \<and> is_pmu_enabled 5
            \<and> \<not> vpmu_is_set (current ?m) VPMU_RUNNING
            \<and> \<not> fst (acquire_pmu_ownership PMU_OWNER_HVM (pmu_owner ?m)))"
    by (simp add: t MSR_TYPE_COUNTER_def MSR_TYPE_CTRL_def)
  have n: "\<forall>i<num_counters layout_f10h.
           (if k7_counters_mirrored layout_f10h \<and> MSR_K7_EVNTSEL0 \<le> MSR_AMD_FAM15H_PERFCTR0
               \<and> MSR_AMD_FAM15H_PERFCTR0 \<le> MSR_K7_PERFCTR3
            then get_fam15h_addr MSR_AMD_FAM15H_PERFCTR0 else MSR_AMD_FAM15H_PERFCTR0)
             \<noteq> ctrls layout_f10h ! i
         \<and> (if k7_counters_mirrored layout_f10h \<and> MSR_K7_EVNTSEL0 \<le> MSR_AMD_FAM15H_PERFCTR0
               \<and> MSR_AMD_FAM15H_PERFCTR0 \<le> MSR_K7_PERFCTR3
            then get_fam15h_addr MSR_AMD_FAM15H_PERFCTR0 else MSR_AMD_FAM15H_PERFCTR0)
             \<noteq> counters layout_f10h ! i"
    by (simp add: layout_defs msr_defs nth_Cons' )
  have v: "(5::u64) = (if has_hvm_container_vcpu (current ?m)
                \<and> get_pmu_reg_type MSR_AMD_FAM15H_PERFCTR0 = MSR_TYPE_CTRL
                then set_guest_mode 5 else 5)"
    by (simp add: t MSR_TYPE_COUNTER_def MSR_TYPE_CTRL_def)
  from unmatched_write_passes_through [OF c a n v] c show ?thesis
    by simp
qed

text \<open>
  C10 as stated fails when the ownership is denied: under the family 10h layout the
  address \<open>MSR_AMD_FAM15H_EVNTSEL0\<close> matches no table entry and is of control type; a
  write setting the enable bit while another category owns the PMU returns 1 and
  writes nothing to the hardware.
\<close>

theorem unmatched_denied_write_is_dropped:
  "amd_vpmu_do_wrmsr layout_f10h MSR_AMD_FAM15H_EVNTSEL0 EVNTSEL_EN 0
     (fresh_machine layout_f10h True PMU_OWNER_XENOPROF) =
     Inr (1, fresh_machine layout_f10h True PMU_OWNER_XENOPROF)
   \<and> msr_writes (hw (fresh_machine layout_f10h True PMU_OWNER_XENOPROF)) = []
   \<and> MSR_AMD_FAM15H_EVNTSEL0 \<notin> set (ctrls layout_f10h)
   \<and> MSR_AMD_FAM15H_EVNTSEL0 \<notin> set (counters layout_f10h)"
proof -
  have "amd_vpmu_do_wrmsr layout_f10h MSR_AMD_FAM15H_EVNTSEL0 EVNTSEL_EN 0
     (fresh_machine layout_f10h True PMU_OWNER_XENOPROF) =
     Inr (1, fresh_machine layout_f10h True PMU_OWNER_XENOPROF)"
    by (rule amd_vpmu_do_wrmsr_denied)
      (simp_all add: get_pmu_reg_type_def msr_defs MSR_TYPE_CTRL_def flag_defs
        fresh_machine_simps acquire_pmu_ownership_def)
  then show ?thesis
    by (simp add: fresh_machine_simps zero_msrs_def layout_defs msr_defs)
qed




text \<open>
  C2, what the code does instead. The handler installs the fast-path intercept only
  if \<open>is_msr_bitmap_on\<close> holds already, and nothing but the installation makes it
  hold. So on an HVM virtual CPU whose fast path is not active, as
  \<open>svm_vpmu_initialise\<close> leaves it, the control-register write that enables the
  first counter and acquires the ownership sets \<open>RUNNING\<close> but leaves every intercept
  as it was and the fast path inactive: counters and controls stay trapped.
\<close>

theorem first_enable_leaves_intercepts:
  assumes "vpmu_context (current s) = Some ctxt"
    and "has_hvm_container_vcpu (current s)"
    and "get_pmu_reg_type msr = MSR_TYPE_CTRL"
    and "is_pmu_enabled msr_content"
    and "\<not> vpmu_is_set (current s) VPMU_RUNNING"
    and "fst (acquire_pmu_ownership PMU_OWNER_HVM (pmu_owner s))"
    and "\<not> is_msr_bitmap_on (current s)"
  shows "\<exists>s'. amd_vpmu_do_wrmsr lay msr msr_content 0 s = Inr (1, s')
    \<and> vpmu_is_set (current s') VPMU_RUNNING
    \<and> pmu_owner s' = PMU_OWNER_HVM
    \<and> \<not> is_msr_bitmap_on (current s')
    \<and> msr_intercepts (current s') = msr_intercepts (current s)"
proof -
  have acc: "\<not> (get_pmu_reg_type msr = MSR_TYPE_CTRL \<and> is_pmu_enabled msr_content
            \<and> \<not> vpmu_is_set (current s) VPMU_RUNNING
            \<and> \<not> fst (acquire_pmu_ownership PMU_OWNER_HVM (pmu_owner s)))"
    using assms(6) by simp
  from amd_vpmu_do_wrmsr_accepted [OF assms(1) acc refl, of lay] obtain s' where
    s': "amd_vpmu_do_wrmsr lay msr msr_content 0 s = Inr (1, s')" by blast
  from amd_vpmu_do_wrmsr_running_after [OF s' acc] assms(3,4)
  have r: "VPMU_RUNNING \<in> flags (current s')" by simp
  from assms(5) have n: "VPMU_RUNNING \<notin> flags (current s)" by (simp add: vpmu_is_set_def)
  from amd_vpmu_do_wrmsr_running(1) [OF s' n r] have o: "pmu_owner s' = PMU_OWNER_HVM" by simp
  from assms(7) have "\<not> priv_context (current s)" by (simp add: is_msr_bitmap_on_def)
  from amd_vpmu_do_wrmsr_running(4) [OF s' this] s' r o show ?thesis
    by (simp add: is_msr_bitmap_on_def vpmu_is_set_def)
qed

theorem first_enable_leaves_intercepts_witness:
  "has_hvm_container_vcpu (current (fresh_machine layout_f10h True PMU_OWNER_NONE))
   \<and> get_pmu_reg_type MSR_K7_EVNTSEL0 = MSR_TYPE_CTRL
   \<and> is_pmu_enabled EVNTSEL_EN
   \<and> \<not> vpmu_is_set (current (fresh_machine layout_f10h True PMU_OWNER_NONE)) VPMU_RUNNING
   \<and> fst (acquire_pmu_ownership PMU_OWNER_HVM
            (pmu_owner (fresh_machine layout_f10h True PMU_OWNER_NONE)))
   \<and> \<not> is_msr_bitmap_on (current (fresh_machine layout_f10h True PMU_OWNER_NONE))
   \<and> (\<exists>s'. amd_vpmu_do_wrmsr layout_f10h MSR_K7_EVNTSEL0 EVNTSEL_EN 0
              (fresh_machine layout_f10h True PMU_OWNER_NONE) = Inr (1, s')
         \<and> vpmu_is_set (current s') VPMU_RUNNING
         \<and> pmu_owner s' = PMU_OWNER_HVM
         \<and> \<not> is_msr_bitmap_on (current s')
         \<and> msr_intercepts (current s') MSR_K7_PERFCTR0 = MSR_INTERCEPT_RW
         \<and> msr_intercepts (current s') MSR_K7_EVNTSEL0 = MSR_INTERCEPT_RW)"
proof -
  let ?m = "fresh_machine layout_f10h True PMU_OWNER_NONE"
  have c: "vpmu_context (current ?m) = Some (the (vpmu_context (current ?m)))"
    by (simp add: fresh_machine_simps)
  have h: "has_hvm_container_vcpu (current ?m)" by (simp add: fresh_machine_simps)
  have t: "get_pmu_reg_type MSR_K7_EVNTSEL0 = MSR_TYPE_CTRL"
    by (simp add: get_pmu_reg_type_def msr_defs)
  have e: "is_pmu_enabled EVNTSEL_EN" by simp
  have r: "\<not> vpmu_is_set (current ?m) VPMU_RUNNING"
    by (simp add: fresh_machine_simps vpmu_is_set_def)
  have a: "fst (acquire_pmu_ownership PMU_OWNER_HVM (pmu_owner ?m))"
    by (simp add: fresh_machine_simps acquire_pmu_ownership_def)
  have b: "\<not> is_msr_bitmap_on (current ?m)"
    by (simp add: fresh_machine_simps is_msr_bitmap_on_def)
  have i: "msr_intercepts (current ?m) x = MSR_INTERCEPT_RW" for x
    by (simp add: fresh_defs flag_defs layout_defs)
  from first_enable_leaves_intercepts [OF c h t e r a b, of layout_f10h] obtain s' where
    "amd_vpmu_do_wrmsr layout_f10h MSR_K7_EVNTSEL0 EVNTSEL_EN 0 ?m = Inr (1, s')"
    "vpmu_is_set (current s') VPMU_RUNNING" "pmu_owner s' = PMU_OWNER_HVM"
    "\<not> is_msr_bitmap_on (current s')"
    "msr_intercepts (current s') = msr_intercepts (current ?m)"
    by blast
  with h t e r a b i show ?thesis by auto
qed

end
